theory Spec2Isabelle
  imports Main "HOL-Library.Sublist"
begin

section \<open>JavaScript string primitives\<close>

text \<open>
  This theory models the two sync scripts of the repository: sync-events.js
  (src/scripts/sync-events.js) and sync-medium.js (the second script in
  src/scripts/send-newsletter.js, behind the newsletter sender).

  A JavaScript string is a sequence of code units. The model covers the strings whose
  code units are below 256 and takes them as \<open>string\<close>, one \<open>char\<close> for each code
  unit. The functions below are the \<open>String.prototype\<close> methods the scripts call.
  \<open>indexOf\<close> returns \<open>None\<close> where JavaScript returns \<open>-1\<close>; the empty pattern is
  found at index 0.
\<close>

fun indexOf :: "'a list \<Rightarrow> 'a list \<Rightarrow> nat option" where
  "indexOf [] m = (if m = [] then Some 0 else None)"
| "indexOf (c # cs) m =
     (if prefix m (c # cs) then Some 0 else map_option Suc (indexOf cs m))"

definition newline :: char where
  "newline = CHR 0x0A"

section \<open>sync-events.js: replaceSection\<close>

text \<open>
  \<^verbatim>\<open>
  function replaceSection(html, startMarker, endMarker, newContent) {
      const startIdx = html.indexOf(startMarker);
      const endIdx = html.indexOf(endMarker);
      if (startIdx === -1 || endIdx === -1) { return null; }
      const before = html.substring(0, startIdx + startMarker.length);
      const after = html.substring(endIdx);
      return before + '\n' + newContent + '\n' + after;
  }
  \<close>
  \<open>null\<close> is \<open>None\<close>. Both indices lie inside the string, so \<open>substring(0, n)\<close> is
  \<open>take n\<close> and \<open>substring(n)\<close> is \<open>drop n\<close>.
\<close>

definition replaceSection :: "string \<Rightarrow> string \<Rightarrow> string \<Rightarrow> string \<Rightarrow> string option" where
  "replaceSection html startMarker endMarker newContent =
     (case indexOf html startMarker of
        None \<Rightarrow> None
      | Some startIdx \<Rightarrow>
          (case indexOf html endMarker of
             None \<Rightarrow> None
           | Some endIdx \<Rightarrow>
               Some (take (startIdx + length startMarker) html @ [newline] @ newContent
                     @ [newline] @ drop endIdx html)))"

text \<open>
  The splice as the specification words it: the first begin marker, the first end marker
  after it, and exactly the text strictly between the two replaced.
\<close>

definition splice_spec :: "string \<Rightarrow> string \<Rightarrow> string \<Rightarrow> string \<Rightarrow> string option" where
  "splice_spec documentText beginMarker endMarker newContent =
     (case indexOf documentText beginMarker of
        None \<Rightarrow> None
      | Some b \<Rightarrow>
          (case indexOf (drop (b + length beginMarker) documentText) endMarker of
             None \<Rightarrow> None
           | Some k \<Rightarrow>
               Some (take (b + length beginMarker) documentText @ newContent
                     @ drop (b + length beginMarker + k) documentText)))"

section \<open>Text helpers shared by both scripts\<close>

text \<open>\<open>Array.prototype.join\<close> on an array of strings.\<close>

fun join :: "string \<Rightarrow> string list \<Rightarrow> string" where
  "join sep [] = []"
| "join sep [x] = x"
| "join sep (x # y # ys) = x @ sep @ join sep (y # ys)"

text \<open>A non-negative integer in a template literal: its decimal digits.\<close>

fun digits :: "nat \<Rightarrow> string" where
  "digits n = (if n < 10 then [''0123456789'' ! n]
               else digits (n div 10) @ [''0123456789'' ! (n mod 10)])"

declare digits.simps [simp del]

text \<open>
  What a run does to the outside world, in order: lines on the console
  (\<open>console.log\<close>, \<open>console.warn\<close>, \<open>console.error\<close>) and \<open>fs.writeFileSync\<close> calls.
  A manifest is written as \<open>JSON.stringify(manifest, null, 2)\<close>; the model keeps the
  value that is serialised.
\<close>

datatype 'm effect =
    Log string
  | Warn string
  | Error string
  | WriteFile string string
  | WriteManifest 'm

section \<open>sync-events.js: main\<close>

text \<open>
  The events manifest, \<open>{ lastSync, upcoming, past }\<close>. \<open>'d\<close> is the type of the
  objects \<open>extractEventData\<close> builds.
\<close>

record 'd events_manifest =
  lastSync :: "string option"
  upcoming :: "'d list"
  past :: "'d list"

text \<open>
  The three card generators and \<open>extractEventData\<close> turn one Eventbrite event object
  (type \<open>'e\<close>) into text or into a manifest entry. \<open>main\<close> only maps them over the
  event lists, so it is modelled for arbitrary such functions.
\<close>

record ('e, 'd) renderers =
  generateEventsPageUpcomingCard :: "'e \<Rightarrow> string"
  generateEventsPagePastCard :: "'e \<Rightarrow> string"
  generateHomepageCard :: "'e \<Rightarrow> string"
  extractEventData :: "'e \<Rightarrow> 'd"

text \<open>
  What one run of \<open>main\<close> reads: whether both environment variables are set, the parsed
  manifest file (\<open>None\<close> when it does not exist), the outcome of the two
  \<open>fetchAllEvents\<close> calls (\<open>Inl\<close> the error message), the text of events.html and of
  index.html (\<open>None\<close> when the file does not exist) and the clock
  (\<open>new Date().toISOString()\<close>).
\<close>

record ('e, 'd) events_run =
  configured :: bool
  manifestFile :: "'d events_manifest option"
  upcomingFetch :: "string + 'e list"
  pastFetch :: "string + 'e list"
  eventsPage :: "string option"
  indexPage :: "string option"
  now :: string

definition EVENTS_PAGE_PATH :: string where
  "EVENTS_PAGE_PATH = ''events.html''"

definition INDEX_PATH :: string where
  "INDEX_PATH = ''index.html''"

definition upcomingContent :: "('e, 'd) renderers \<Rightarrow> 'e list \<Rightarrow> string" where
  \<open>upcomingContent R upcomingEvents =
     (if length upcomingEvents > 0
      then join [newline] (map (generateEventsPageUpcomingCard R) upcomingEvents)
      else ''                    <p class="events__empty reveal">Events are coming soon. Follow us on <a href="https://instagram.com/yvonne.holistique/" target="_blank">Instagram</a> for updates.</p>'')\<close>

definition pastContent :: "('e, 'd) renderers \<Rightarrow> 'e list \<Rightarrow> string" where
  \<open>pastContent R pastEvents =
     (if length pastEvents > 0
      then join [newline] (map (generateEventsPagePastCard R) pastEvents)
      else ''                    <p class="events__empty reveal">No past events to show yet.</p>'')\<close>

definition homepageContent :: "('e, 'd) renderers \<Rightarrow> 'e list \<Rightarrow> string" where
  \<open>homepageContent R upcomingEvents =
     (let top3 = take 3 upcomingEvents
      in if length top3 > 0
         then join [newline] (map (generateHomepageCard R) top3)
         else ''                    <p class="events__empty stagger-item">Events are coming soon. Follow us on <a href="https://instagram.com/yvonne.holistique/" target="_blank">Instagram</a> for updates.</p>'')\<close>

text \<open>
  The block \<open>Update events.html\<close> of \<open>main\<close>. \<open>eventsHtml\<close> and \<open>changed\<close> are the two
  local variables; each \<open>if (updated...)\<close> tests a result of replaceSection, which is
  \<open>null\<close> or a string holding at least the two line feeds, so the test is the case
  distinction on the option.
\<close>

definition updateEventsPage ::
  "('e, 'd) renderers \<Rightarrow> 'e list \<Rightarrow> 'e list \<Rightarrow> string option
     \<Rightarrow> 'd events_manifest effect list" where
  "updateEventsPage R upcomingEvents pastEvents page =
     (case page of
        None \<Rightarrow> [Warn ''  Warning: events.html not found. Skipping events page update.'']
      | Some eventsHtml0 \<Rightarrow>
          (let (eventsHtml1, changed1, out1) =
                 (case replaceSection eventsHtml0 ''<!-- EVENTS-UPCOMING-START -->''
                         ''<!-- EVENTS-UPCOMING-END -->'' (upcomingContent R upcomingEvents) of
                    Some updatedUpcoming \<Rightarrow> (updatedUpcoming, True, [])
                  | None \<Rightarrow> (eventsHtml0, False,
                      [Warn ''  Warning: Could not find EVENTS-UPCOMING markers in events.html. Skipping upcoming section.'']));
               (eventsHtml2, changed2, out2) =
                 (case replaceSection eventsHtml1 ''<!-- EVENTS-PAST-START -->''
                         ''<!-- EVENTS-PAST-END -->'' (pastContent R pastEvents) of
                    Some updatedPast \<Rightarrow> (updatedPast, True, [])
                  | None \<Rightarrow> (eventsHtml1, changed1,
                      [Warn ''  Warning: Could not find EVENTS-PAST markers in events.html. Skipping past section.'']))
           in out1 @ out2
              @ (if changed2
                 then [WriteFile EVENTS_PAGE_PATH eventsHtml2, Log ''  Updated events.html.'']
                 else [])))"

text \<open>The block \<open>Update index.html (top 3 upcoming)\<close> of \<open>main\<close>.\<close>

definition updateIndexPage ::
  "('e, 'd) renderers \<Rightarrow> 'e list \<Rightarrow> string option \<Rightarrow> 'd events_manifest effect list" where
  "updateIndexPage R upcomingEvents page =
     (case page of
        None \<Rightarrow> [Warn ''  Warning: index.html not found. Skipping homepage update.'']
      | Some indexHtml \<Rightarrow>
          (case replaceSection indexHtml ''<!-- HOMEPAGE-EVENTS-START -->''
                  ''<!-- HOMEPAGE-EVENTS-END -->'' (homepageContent R upcomingEvents) of
             Some updatedIndex \<Rightarrow>
               [WriteFile INDEX_PATH updatedIndex,
                Log ''  Updated index.html with top 3 upcoming events.'']
           | None \<Rightarrow>
               [Warn ''  Warning: Could not find HOMEPAGE-EVENTS markers in index.html. Skipping homepage update.'']))"

text \<open>
  \<open>main\<close> of sync-events.js: the effects of the run in order, and the exit code.
  The change detection compares \<open>JSON.stringify\<close> of the new lists with that of the
  lists loaded from the manifest; the model compares the lists.
\<close>

definition main_events ::
  "('e, 'd) renderers \<Rightarrow> ('e, 'd) events_run \<Rightarrow> 'd events_manifest effect list \<times> nat" where
  "main_events R inp =
     (if \<not> configured inp
      then ([Log ''EVENTBRITE_TOKEN or EVENTBRITE_ORG_ID not set. Skipping event sync.''], 0)
      else
        let (manifest, out0) =
              (case manifestFile inp of
                 Some m \<Rightarrow> (m, [])
               | None \<Rightarrow> (\<lparr>lastSync = None, upcoming = [], past = []\<rparr>,
                            [Log ''Created default events-manifest.json'']));
            out1 = out0 @ [Log ''Fetching upcoming events from Eventbrite...'']
        in case upcomingFetch inp of
             Inl err \<Rightarrow> (out1 @ [Error (''Failed to fetch upcoming events: '' @ err)], 1)
           | Inr upcomingEvents \<Rightarrow>
               (let out2 = out1
                      @ [Log (''  Found '' @ digits (length upcomingEvents) @ '' upcoming event(s).''),
                         Log ''Fetching past events from Eventbrite...'']
                in case pastFetch inp of
                     Inl err \<Rightarrow> (out2 @ [Error (''Failed to fetch past events: '' @ err)], 1)
                   | Inr fetched \<Rightarrow>
                       (let pastEvents = take 12 fetched;
                            out3 = out2
                              @ [Log (''  Found '' @ digits (length pastEvents)
                                      @ '' past event(s) (limited to 12).'')];
                            upcomingData = map (extractEventData R) upcomingEvents;
                            pastData = map (extractEventData R) pastEvents;
                            out4 = updateEventsPage R upcomingEvents pastEvents (eventsPage inp);
                            out5 = updateIndexPage R upcomingEvents (indexPage inp);
                            manifest' = manifest\<lparr>lastSync := Some (now inp),
                                                  upcoming := upcomingData, past := pastData\<rparr>
                        in (out3 @ out4 @ out5
                            @ [WriteManifest manifest', Log ''Manifest updated.'',
                               Log (if (upcomingData, pastData) \<noteq> (upcoming manifest, past manifest)
                                    then ''EVENTS_CHANGED=true'' else ''EVENTS_CHANGED=false''),
                               Log (''Sync complete! '' @ digits (length upcomingEvents)
                                    @ '' upcoming, '' @ digits (length pastEvents)
                                    @ '' past event(s).'')],
                            0))))"

section \<open>Reading a run's effects\<close>

text \<open>The files a run writes (path and content), the manifests it writes, and its warnings.\<close>

fun filesWritten :: "'m effect list \<Rightarrow> (string \<times> string) list" where
  "filesWritten [] = []"
| "filesWritten (WriteFile p c # es) = (p, c) # filesWritten es"
| "filesWritten (_ # es) = filesWritten es"

fun manifestsWritten :: "'m effect list \<Rightarrow> 'm list" where
  "manifestsWritten [] = []"
| "manifestsWritten (WriteManifest m # es) = m # manifestsWritten es"
| "manifestsWritten (_ # es) = manifestsWritten es"

fun warnings :: "'m effect list \<Rightarrow> string list" where
  "warnings [] = []"
| "warnings (Warn w # es) = w # warnings es"
| "warnings (_ # es) = warnings es"

section \<open>sync-medium.js: text functions\<close>

text \<open>
  \<open>str.replace(/c/g, r)\<close> for a pattern that is one literal character, and escapeHtml,
  which chains four such replacements, the ampersand first:
  \<^verbatim>\<open>
  function escapeHtml(str) {
      return str.replace(/&/g, '&amp;').replace(/</g, '&lt;')
                .replace(/>/g, '&gt;').replace(/"/g, '&quot;');
  }
  \<close>
  sync-events.js has the same function behind \<open>if (!str) return ''\<close>, which gives the
  same result on the empty string.
\<close>

definition replaceChar :: "char \<Rightarrow> string \<Rightarrow> string \<Rightarrow> string" where
  "replaceChar c r str = concat (map (\<lambda>x. if x = c then r else [x]) str)"

definition escapeHtml :: "string \<Rightarrow> string" where
  \<open>escapeHtml str =
     replaceChar (CHR ''"'') ''&quot;''
       (replaceChar (CHR ''>'') ''&gt;''
         (replaceChar (CHR ''<'') ''&lt;''
           (replaceChar (CHR ''&'') ''&amp;'' str)))\<close>

text \<open>
  \<open>toLowerCase\<close> on the code units below 256: the letters A to Z and the Latin-1
  capitals (U+00C0 to U+00DE without the multiplication sign U+00D7) move up by 32.
\<close>

definition lowerChar :: "char \<Rightarrow> char" where
  "lowerChar c =
     (let n = (of_char c :: nat)
      in if (65 \<le> n \<and> n \<le> 90) \<or> (192 \<le> n \<and> n \<le> 222 \<and> n \<noteq> 215)
         then char_of (n + 32) else c)"

definition toLowerCase :: "string \<Rightarrow> string" where
  "toLowerCase str = map lowerChar str"

text \<open>
  White space as \<open>\s\<close> and \<open>trim()\<close> see it, on the code units below 256: tab, line
  feed, vertical tab, form feed, carriage return, space and no-break space.
\<close>

definition isSpace :: "char \<Rightarrow> bool" where
  "isSpace c = ((of_char c :: nat) \<in> {9, 10, 11, 12, 13, 32, 160})"

definition trim :: "string \<Rightarrow> string" where
  "trim str = rev (dropWhile isSpace (rev (dropWhile isSpace str)))"

text \<open>
  \<open>str.replace(/<[^>]+>/g, '')\<close>. At a \<open><\<close> the pattern matches when at least one
  character other than \<open>>\<close> follows and a \<open>>\<close> closes the run; the match is removed
  and the scan goes on behind it. Where it does not match (\<open><>\<close>, or no \<open>>\<close> left),
  the \<open><\<close> stays and the scan goes on with the next character.
\<close>

function stripTags :: "string \<Rightarrow> string" where
  "stripTags [] = []"
| "stripTags (c # cs) =
     (if c = CHR ''<'' \<and> takeWhile (\<lambda>x. x \<noteq> CHR ''>'') cs \<noteq> []
         \<and> dropWhile (\<lambda>x. x \<noteq> CHR ''>'') cs \<noteq> []
      then stripTags (tl (dropWhile (\<lambda>x. x \<noteq> CHR ''>'') cs))
      else c # stripTags cs)"
  by pat_completeness auto
termination
proof (relation "measure length")
  show "wf (measure length)" by simp
next
  fix c :: char and cs :: string
  have "length (dropWhile (\<lambda>x. x \<noteq> CHR ''>'') cs) \<le> length cs"
    by (rule length_dropWhile_le)
  then show "(tl (dropWhile (\<lambda>x. x \<noteq> CHR ''>'') cs), c # cs) \<in> measure length"
    by simp
next
  fix c :: char and cs :: string
  show "(cs, c # cs) \<in> measure length" by simp
qed

text \<open>\<open>str.replace(/\s+/g, ' ')\<close>: every maximal run of white space becomes one space.\<close>

function collapseSpaces :: "string \<Rightarrow> string" where
  "collapseSpaces [] = []"
| "collapseSpaces (c # cs) =
     (if isSpace c then CHR '' '' # collapseSpaces (dropWhile isSpace cs)
      else c # collapseSpaces cs)"
  by pat_completeness auto
termination
proof (relation "measure length")
  show "wf (measure length)" by simp
next
  fix c :: char and cs :: string
  have "length (dropWhile isSpace cs) \<le> length cs" by (rule length_dropWhile_le)
  then show "(dropWhile isSpace cs, c # cs) \<in> measure length" by simp
next
  fix c :: char and cs :: string
  show "(cs, c # cs) \<in> measure length" by simp
qed

text \<open>\<open>str.lastIndexOf(' ')\<close> for a one-character pattern; \<open>None\<close> is \<open>-1\<close>.\<close>

fun lastIndexOfChar :: "string \<Rightarrow> char \<Rightarrow> nat option" where
  "lastIndexOfChar [] c = None"
| "lastIndexOfChar (x # xs) c =
     (case lastIndexOfChar xs c of
        Some k \<Rightarrow> Some (Suc k)
      | None \<Rightarrow> if x = c then Some 0 else None)"

section \<open>sync-events.js: truncateText\<close>

text \<open>
  \<^verbatim>\<open>
  function stripHtml(str) {
      if (!str) return '';
      return str.replace(/<[^>]+>/g, '').trim();
  }
  function truncateText(text, maxLen) {
      if (!text) return '';
      const clean = stripHtml(text).replace(/\s+/g, ' ').trim();
      if (clean.length <= maxLen) return clean;
      const truncated = clean.substring(0, maxLen);
      const lastSpace = truncated.lastIndexOf(' ');
      return (lastSpace > 0 ? truncated.substring(0, lastSpace) : truncated) + '...';
  }
  \<close>
\<close>

definition stripHtml :: "string \<Rightarrow> string" where
  "stripHtml str = (if str = [] then [] else trim (stripTags str))"

definition cleanText :: "string \<Rightarrow> string" where
  "cleanText text = trim (collapseSpaces (stripHtml text))"

definition truncateText :: "string \<Rightarrow> nat \<Rightarrow> string" where
  "truncateText text maxLen =
     (if text = [] then []
      else
        let clean = cleanText text
        in if length clean \<le> maxLen then clean
           else
             let truncated = take maxLen clean;
                 lastSpace = lastIndexOfChar truncated (CHR '' '')
             in (case lastSpace of
                   Some k \<Rightarrow> if k > 0 then take k truncated else truncated
                 | None \<Rightarrow> truncated) @ ''...'')"

section \<open>sync-medium.js: extractExcerpt\<close>

text \<open>
  \<^verbatim>\<open>
  function extractExcerpt(html) {
      const pMatch = html.match(/<p[^>]*>([\s\S]*?)<\/p>/);
      if (pMatch) {
          let text = pMatch[1].replace(/<[^>]+>/g, '');
          text = decodeHtmlEntities(text).trim();
          if (text.length > 160) text = text.substring(0, 157) + '...';
          return text;
      }
      return '';
  }
  \<close>
  The pattern matches at the first \<open><p\<close> of the text when a \<open>>\<close> follows it and a
  \<open></p>\<close> follows that \<open>>\<close>; the group is the text between that \<open>>\<close> and the first
  \<open></p>\<close> behind it. When it does not match there it matches nowhere: a later \<open><p\<close>
  has its first \<open>>\<close> no earlier, and nothing more behind it. \<open>firstParagraph\<close> is that
  match.

  decodeHtmlEntities turns \<open>&mdash;\<close>, \<open>&hellip;\<close> and numeric entities into code units
  beyond the 8-bit characters of this model, so extractExcerpt takes it as the
  parameter \<open>decode\<close>.
\<close>

definition firstParagraph :: "string \<Rightarrow> string option" where
  "firstParagraph html =
     (case indexOf html ''<p'' of
        None \<Rightarrow> None
      | Some i \<Rightarrow>
          (let attrs = drop (i + 2) html;
               rest = dropWhile (\<lambda>x. x \<noteq> CHR ''>'') attrs
           in if rest = [] then None
              else (case indexOf (tl rest) ''</p>'' of
                      None \<Rightarrow> None
                    | Some j \<Rightarrow> Some (take j (tl rest)))))"

definition extractExcerpt :: "(string \<Rightarrow> string) \<Rightarrow> string \<Rightarrow> string" where
  "extractExcerpt decode html =
     (case firstParagraph html of
        Some inner \<Rightarrow>
          (let text = trim (decode (stripTags inner))
           in if length text > 160 then take 157 text @ ''...'' else text)
      | None \<Rightarrow> [])"

section \<open>sync-medium.js: the manifest and the feed items\<close>

text \<open>
  One feed item as extractItems returns it: every field is a string (the empty string
  when the tag is missing), \<open>categories\<close> an array of strings.
\<close>

record item =
  title :: string
  link :: string
  pubDate :: string
  contentEncoded :: string
  categories :: "string list"

text \<open>
  An entry of \<open>manifest.posts\<close>, \<open>{ number, title, mediumUrl, file, date, category }\<close>
  (the entry's \<open>title\<close>, \<open>file\<close>, \<open>date\<close> and \<open>category\<close> are the fields
  \<open>postTitle\<close>, \<open>fileName\<close>, \<open>postDate\<close> and \<open>postCategory\<close>), and the manifest.
  A post number and the counter are JavaScript Numbers, that is doubles, holding an
  integer; the model takes the integer they hold. \<open>toDouble\<close> and \<open>jsIncrement\<close>
  below write out what \<open>nextNumber++\<close> does to such a value.
\<close>

record post =
  number :: int
  postTitle :: string
  mediumUrl :: string
  fileName :: string
  postDate :: string
  postCategory :: string

record manifest =
  posts :: "post list"
  lastPostNumber :: int

text \<open>
  What \<open>main\<close> of sync-medium.js takes from the platform and from the content functions
  whose results it only passes on:
  \<^item> \<open>urlPathname s\<close> is \<open>new URL(s).pathname\<close>, \<open>None\<close> when the constructor throws;
  \<^item> \<open>numberToString n\<close> is the text a template literal puts for the Number \<open>n\<close>: its
    decimal digits for an integer up to \<open>2^53\<close> in magnitude, the shortest digits that
    read back as the same double beyond;
  \<^item> \<open>formatDate\<close> goes through \<open>Date\<close> and the local time zone;
  \<^item> \<open>titleCase\<close> is the capitalisation inside pickCategory
    (\<open>split(/[\s-]+/)\<close>, \<open>toUpperCase\<close> of each first letter, \<open>join(' ')\<close>);
  \<^item> \<open>decodeHtmlEntities\<close>, \<open>extractHeroImage\<close>, \<open>extractCardImage\<close>,
    \<open>extractSubtitle\<close>, \<open>cleanBodyHtml\<close> and \<open>estimateReadTime\<close> are the functions of
    these names, applied to \<open>item.contentEncoded\<close>;
  \<^item> \<open>pageAfterTitle\<close> and \<open>pageAfterBody\<close> are the two long constant stretches of the
    page template of generatePostHtml: from the text behind the title inside
    \<open><title>\<close> up to \<open><img src="\<close> of the hero image (it holds the style sheet and a
    dash beyond the 8-bit characters), and from the end of the article body to the end
    of the page.
\<close>

record blog_env =
  urlPathname :: "string \<Rightarrow> string option"
  numberToString :: "int \<Rightarrow> string"
  formatDate :: "string \<Rightarrow> string"
  titleCase :: "string \<Rightarrow> string"
  decodeHtmlEntities :: "string \<Rightarrow> string"
  extractHeroImage :: "string \<Rightarrow> string"
  extractCardImage :: "string \<Rightarrow> string"
  extractSubtitle :: "string \<Rightarrow> string"
  cleanBodyHtml :: "string \<Rightarrow> string"
  estimateReadTime :: "string \<Rightarrow> nat"
  pageAfterTitle :: string
  pageAfterBody :: string

text \<open>
  The decimal digits of an integer, with its sign: what \<open>numberToString\<close> is for an
  integer up to \<open>2^53\<close> in magnitude.
\<close>

function intDigits :: "int \<Rightarrow> string" where
  "intDigits n = (if n < 10 then [''0123456789'' ! nat n]
                  else intDigits (n div 10) @ [''0123456789'' ! nat (n mod 10)])"
  by pat_completeness auto
termination
  by (relation "measure nat") auto

declare intDigits.simps [simp del]

definition numToString :: "int \<Rightarrow> string" where
  "numToString n = (if n < 0 then ''-'' @ intDigits (- n) else intDigits n)"

text \<open>
  Arithmetic on Numbers is arithmetic on doubles: the exact result is rounded to the
  nearest double, and of two doubles equally near the one with the even significand is
  taken. \<open>toDouble x\<close> is that rounding for an integer \<open>x\<close> (of magnitude below
  \<open>2^1024\<close>, where doubles end). Every integer up to \<open>2^53\<close> in magnitude is a double.
  A larger one has \<open>bitLength\<close> bits, more than the 53 a significand holds, so the
  doubles around it are the multiples of \<open>ulp\<close>, two to the number of bits that do not
  fit. \<open>jsIncrement n\<close> is \<open>n + 1\<close> as the code computes it in \<open>nextNumber++\<close>.
\<close>

function bitLength :: "int \<Rightarrow> nat" where
  "bitLength x = (if x \<le> 0 then 0 else Suc (bitLength (x div 2)))"
  by pat_completeness auto
termination
  by (relation "measure nat") auto

declare bitLength.simps [simp del]

definition toDouble :: "int \<Rightarrow> int" where
  "toDouble x =
     (if \<bar>x\<bar> \<le> 2 ^ 53 then x
      else
        let ulp = 2 ^ (bitLength \<bar>x\<bar> - 53);
            q = x div ulp;
            r = x mod ulp
        in if 2 * r < ulp then q * ulp
           else if ulp < 2 * r then (q + 1) * ulp
           else if even q then q * ulp
           else (q + 1) * ulp)"

definition jsIncrement :: "int \<Rightarrow> int" where
  "jsIncrement n = toDouble (n + 1)"

text \<open>
  \<^verbatim>\<open>
  function pickCategory(categories) {
      const skip = ['medium', 'blog', 'writing', 'life', 'self', 'culture'];
      const filtered = categories.filter(c => !skip.includes(c.toLowerCase()));
      if (filtered.length > 0) { return <titleCase>(filtered[0]); }
      return 'Journal';
  }
  \<close>
  \<open><titleCase>\<close> stands for the capitalising expression; the parameter \<open>categories\<close>
  is written \<open>cats\<close>.
\<close>

definition pickCategory :: "(string \<Rightarrow> string) \<Rightarrow> string list \<Rightarrow> string" where
  "pickCategory tc cats =
     (let skip = [''medium'', ''blog'', ''writing'', ''life'', ''self'', ''culture''];
          filtered = filter (\<lambda>c. toLowerCase c \<notin> set skip) cats
      in case filtered of
           c # _ \<Rightarrow> tc c
         | [] \<Rightarrow> ''Journal'')"

section \<open>sync-medium.js: the two generators\<close>

text \<open>
  generateCardHtml and generatePostHtml are template literals; each \<open>${...}\<close> is the
  expression at that place, the text between them is copied from the source line by
  line. The parameters \<open>number\<close> and \<open>title\<close> are written \<open>number'\<close> and \<open>title'\<close>;
  \<open>E\<close> is the environment the conversions come from.
\<close>

definition generateCardHtml ::
  "blog_env \<Rightarrow> int \<Rightarrow> string \<Rightarrow> string \<Rightarrow> string \<Rightarrow> nat \<Rightarrow> string \<Rightarrow> string \<Rightarrow> string" where
  \<open>generateCardHtml E number' title' category excerpt readTime date cardImage =
       [newline] @
       ''                        <!-- Card '' @
       numberToString E number' @
       '' (auto-synced) -->'' @
       [newline] @
       ''                        <a href="post-'' @
       numberToString E number' @
       ''.html" class="article-card">'' @
       [newline] @
       ''                            <img class="card-img" src="'' @
       cardImage @
       ''" alt="'' @
       escapeHtml title' @
       ''">'' @
       [newline] @
       ''                            <span class="card-category">'' @
       escapeHtml category @
       ''</span>'' @
       [newline] @
       ''                            <h3 class="card-title">'' @
       escapeHtml title' @
       ''</h3>'' @
       [newline] @
       ''                            <p class="card-excerpt">'' @
       escapeHtml excerpt @
       ''</p>'' @
       [newline] @
       ''                            <span class="card-meta">'' @
       digits readTime @
       '' Min Read &middot; '' @
       date @
       ''</span>'' @
       [newline] @
       ''                        </a>''\<close>

definition generatePostHtml ::
  "blog_env \<Rightarrow> string \<Rightarrow> string \<Rightarrow> string \<Rightarrow> string \<Rightarrow> nat \<Rightarrow> string \<Rightarrow> string \<Rightarrow> string" where
  \<open>generatePostHtml E title' subtitle category date readTime heroImage bodyHtml =
       ''<!DOCTYPE html>'' @
       [newline] @
       ''<html lang="en">'' @
       [newline] @
       ''<head>'' @
       [newline] @
       ''    <meta charset="UTF-8">'' @
       [newline] @
       ''    <meta name="viewport" content="width=device-width, initial-scale=1.0">'' @
       [newline] @
       ''    <title>'' @
       escapeHtml title' @
       pageAfterTitle E @
       heroImage @
       ''" alt="'' @
       escapeHtml title' @
       ''">'' @
       [newline] @
       ''    </div>'' @
       [newline] @
       [newline] @
       ''    <article class="article-container">'' @
       [newline] @
       ''        <span class="article-category">'' @
       escapeHtml category @
       ''</span>'' @
       [newline] @
       ''        <h1 class="article-title">'' @
       escapeHtml title' @
       ''</h1>'' @
       [newline] @
       ''        <p class="article-subtitle">'' @
       escapeHtml subtitle @
       ''</p>'' @
       [newline] @
       ''        <p class="article-meta">By Yvonne &middot; '' @
       date @
       '' &middot; '' @
       digits readTime @
       '' Min Read</p>'' @
       [newline] @
       [newline] @
       ''        <div class="article-body">'' @
       [newline] @
       ''            '' @
       bodyHtml @
       pageAfterBody E\<close>

section \<open>sync-medium.js: main\<close>

text \<open>
  The identity keys. \<open>stripTrailingSlash\<close> is \<open>.replace(/\/$/, '')\<close>: one slash at the
  very end of the string is removed. \<open>pathName\<close> is the \<open>try\<close>/\<open>catch\<close> that main has
  twice, once for \<open>p.mediumUrl\<close> and once for \<open>item.link\<close>: the pathname without its
  trailing slash, or the string itself when the URL constructor throws.
\<close>

definition stripTrailingSlash :: "string \<Rightarrow> string" where
  "stripTrailingSlash p = (if p \<noteq> [] \<and> last p = CHR ''/'' then butlast p else p)"

definition pathName :: "blog_env \<Rightarrow> string \<Rightarrow> string" where
  "pathName E url =
     (case urlPathname E url of
        Some p \<Rightarrow> stripTrailingSlash p
      | None \<Rightarrow> url)"

definition existingTitles :: "manifest \<Rightarrow> string set" where
  "existingTitles m = set (map (\<lambda>p. toLowerCase (postTitle p)) (posts m))"

definition existingUrls :: "blog_env \<Rightarrow> manifest \<Rightarrow> string set" where
  "existingUrls E m = set (map (\<lambda>p. pathName E (mediumUrl p)) (posts m))"

definition newItems :: "blog_env \<Rightarrow> manifest \<Rightarrow> item list \<Rightarrow> item list" where
  "newItems E m items =
     filter (\<lambda>item. toLowerCase (title item) \<notin> existingTitles m
                    \<and> pathName E (link item) \<notin> existingUrls E m) items"

text \<open>
  The \<open>for (const item of newItems)\<close> loop. Its state: \<open>nextNumber\<close>, \<open>newCards\<close>,
  \<open>manifest.posts\<close> and the effects so far. The body starts with \<open>nextNumber++\<close>, an
  addition of doubles, and uses the new value \<open>n\<close> from there on.
\<close>

record loop_state =
  nextNumber :: int
  newCards :: "string list"
  manifestPosts :: "post list"
  loopOut :: "manifest effect list"

definition importItem :: "blog_env \<Rightarrow> loop_state \<Rightarrow> item \<Rightarrow> loop_state" where
  \<open>importItem E st item =
     (let n = jsIncrement (nextNumber st);
          category = pickCategory (titleCase E) (categories item);
          date = formatDate E (pubDate item);
          heroImage = extractHeroImage E (contentEncoded item);
          cardImage = extractCardImage E (contentEncoded item);
          subtitle = extractSubtitle E (contentEncoded item);
          excerpt = extractExcerpt (decodeHtmlEntities E) (contentEncoded item);
          bodyHtml = cleanBodyHtml E (contentEncoded item);
          readTime = estimateReadTime E (contentEncoded item);
          postHtml = generatePostHtml E (title item) subtitle category date readTime
                       heroImage bodyHtml;
          postFile = ''post-'' @ numberToString E n @ ''.html''
      in \<lparr>nextNumber = n,
          newCards = newCards st
            @ [generateCardHtml E n (title item) category excerpt readTime date cardImage],
          manifestPosts = manifestPosts st
            @ [\<lparr>number = n, postTitle = title item, mediumUrl = link item, fileName = postFile,
                 postDate = date, postCategory = category\<rparr>],
          loopOut = loopOut st
            @ [WriteFile postFile postHtml,
               Log (''  Created '' @ postFile @ '': "'' @ title item @ ''"'')]\<rparr>)\<close>

text \<open>
  What one run reads: the items of the fetched feed (\<open>Inl\<close> the error message when the
  fetch fails), the parsed posts-manifest.json and the text of blog-post.html
  (\<open>None\<close> when \<open>readFileSync\<close> or \<open>JSON.parse\<close> throws, which ends the run through
  \<open>main().catch\<close> with exit code 1).
\<close>

record blog_run =
  feed :: "string + item list"
  blogManifest :: "manifest option"
  blogList :: "string option"

definition BLOG_LIST_PATH :: string where
  "BLOG_LIST_PATH = ''blog-post.html''"

definition insertCards :: "string \<Rightarrow> string list \<Rightarrow> manifest effect list" where
  \<open>insertCards blogHtml cards =
     (let insertMarker = ''<div class="article-grid">''
      in case indexOf blogHtml insertMarker of
           Some insertIdx \<Rightarrow>
             (let insertPos = insertIdx + length insertMarker;
                  cardsHtml = join [newline] cards
              in [WriteFile BLOG_LIST_PATH
                    (take insertPos blogHtml @ [newline] @ cardsHtml @ drop insertPos blogHtml),
                  Log (''  Updated blog-post.html with '' @ digits (length cards)
                       @ '' new card(s).'')])
         | None \<Rightarrow>
             [Warn ''  Warning: Could not find article-grid in blog-post.html. Cards not inserted.''])\<close>

definition main_blog :: "blog_env \<Rightarrow> blog_run \<Rightarrow> manifest effect list \<times> nat" where
  "main_blog E inp =
     (case feed inp of
        Inl err \<Rightarrow>
          ([Log ''Fetching Medium RSS feed...'', Error (''Failed to fetch RSS feed: '' @ err)], 1)
      | Inr items \<Rightarrow>
          (let out0 = [Log ''Fetching Medium RSS feed...'',
                       Log (''Found '' @ digits (length items) @ '' items in RSS feed.'')]
           in case blogManifest inp of
                None \<Rightarrow> (out0 @ [Error ''Sync failed:''], 1)
              | Some m \<Rightarrow>
                  (let new = newItems E m items
                   in if length new = 0
                      then (out0 @ [Log ''No new posts found. Everything is up to date.''], 0)
                      else
                        let out1 = out0
                              @ [Log (''Found '' @ digits (length new) @ '' new post(s) to sync.'')];
                            st = foldl (importItem E)
                                   \<lparr>nextNumber = lastPostNumber m, newCards = [],
                                    manifestPosts = posts m, loopOut = []\<rparr> new;
                            m' = \<lparr>posts = manifestPosts st, lastPostNumber = nextNumber st\<rparr>
                        in case blogList inp of
                             None \<Rightarrow> (out1 @ loopOut st @ [Error ''Sync failed:''], 1)
                           | Some blogHtml \<Rightarrow>
                               (out1 @ loopOut st @ insertCards blogHtml (newCards st)
                                @ [WriteManifest m', Log ''Manifest updated.'',
                                   Log (''Sync complete! '' @ digits (length new)
                                        @ '' new post(s) added.'')],
                                0))))"

text \<open>The entry the loop pushes onto \<open>manifest.posts\<close> for an item imported as number \<open>n\<close>.\<close>

definition manifestEntry :: "blog_env \<Rightarrow> int \<Rightarrow> item \<Rightarrow> post" where
  "manifestEntry E n item =
     \<lparr>number = n, postTitle = title item, mediumUrl = link item,
      fileName = ''post-'' @ numberToString E n @ ''.html'',
      postDate = formatDate E (pubDate item),
      postCategory = pickCategory (titleCase E) (categories item)\<rparr>"

text \<open>The values \<open>nextNumber\<close> takes in \<open>k\<close> rounds of \<open>nextNumber++\<close> from \<open>a\<close>.\<close>

fun numbersFrom :: "int \<Rightarrow> nat \<Rightarrow> int list" where
  "numbersFrom a 0 = []"
| "numbersFrom a (Suc k) = jsIncrement a # numbersFrom (jsIncrement a) k"

section \<open>sync-medium.js: extractItems\<close>

text \<open>
  \<^verbatim>\<open>
  function extractItems(xml) {
      const items = [];
      const itemRegex = /<item>([\s\S]*?)<\/item>/g;
      let match;
      while ((match = itemRegex.exec(xml)) !== null) {
          const block = match[1];
          const get = (tag) => {
              const m = block.match(new RegExp(
                `<${tag}[^>]*><!\\[CDATA\\[([\\s\\S]*?)\\]\\]><\\/${tag}>|<${tag}[^>]*>([\\s\\S]*?)<\\/${tag}>`));
              return m ? decodeHtmlEntities((m[1] || m[2] || '').trim()) : '';
          };
          const title = get('title');
          const link = get('link');
          const pubDate = get('pubDate');
          const contentEncoded = (() => {
              const m = block.match(/<content:encoded><!\[CDATA\[([\s\S]*?)\]\]><\/content:encoded>/);
              return m ? m[1] : '';
          })();
          const categories = [];
          const catRegex = /<category><!\[CDATA\[([\s\S]*?)\]\]><\/category>|<category>([^<]*)<\/category>/g;
          let cm;
          while ((cm = catRegex.exec(block)) !== null) {
              categories.push((cm[1] || cm[2] || '').trim());
          }
          items.push({ title, link, pubDate, contentEncoded, categories });
      }
      return items;
  }
  \<close>
  Each pattern is matched the way the regular expression engine does it: the start
  positions are tried from left to right and, at one position, the alternatives in their
  order. A lazy \<open>[\s\S]*?\<close> in front of a literal ends at the first occurrence of that
  literal; \<open>[^>]*\<close> in front of \<open>>\<close> ends at the first \<open>>\<close>; \<open>[^<]*\<close> in front of
  \<open><\/category>\<close> ends at the first \<open><\<close>. A global pattern goes on behind the end of
  the previous match.
\<close>

text \<open>The blocks between \<open><item>\<close> and the next \<open></item>\<close>.\<close>

fun itemBlocks :: "string \<Rightarrow> string list" where
  "itemBlocks [] = []"
| "itemBlocks (c # cs) =
     (if prefix ''<item>'' (c # cs)
      then (let r = drop 5 cs
            in case indexOf r ''</item>'' of
                 Some j \<Rightarrow> take j r # itemBlocks (drop (j + 7) r)
               | None \<Rightarrow> itemBlocks cs)
      else itemBlocks cs)"

text \<open>
  The match of \<open>get(tag)\<close>: the value of \<open>m[1] || m[2] || ''\<close>, or \<open>None\<close> when the pattern
  matches nowhere.
\<close>

fun tagMatch :: "string \<Rightarrow> string \<Rightarrow> string option" where
  "tagMatch tag [] = None"
| "tagMatch tag (c # cs) =
     (if prefix (''<'' @ tag) (c # cs)
      then (let rest = dropWhile (\<lambda>x. x \<noteq> CHR ''>'') (drop (length tag) cs)
            in if rest = [] then tagMatch tag cs
               else
                 let body = tl rest;
                     cdata = (if prefix ''<![CDATA['' body
                              then indexOf (drop 9 body) ('']]></'' @ tag @ ''>'')
                              else None)
                 in case cdata of
                      Some j \<Rightarrow> Some (take j (drop 9 body))
                    | None \<Rightarrow>
                        (case indexOf body (''</'' @ tag @ ''>'') of
                           Some k \<Rightarrow> Some (take k body)
                         | None \<Rightarrow> tagMatch tag cs))
      else tagMatch tag cs)"

definition get :: "(string \<Rightarrow> string) \<Rightarrow> string \<Rightarrow> string \<Rightarrow> string" where
  "get decode block tag =
     (case tagMatch tag block of
        Some g \<Rightarrow> decode (trim g)
      | None \<Rightarrow> [])"

text \<open>The match of the pattern for \<open>content:encoded\<close>: its group, or \<open>None\<close>.\<close>

fun contentMatch :: "string \<Rightarrow> string option" where
  "contentMatch [] = None"
| "contentMatch (c # cs) =
     (if prefix ''<content:encoded><![CDATA['' (c # cs)
      then (case indexOf (drop 25 cs) '']]></content:encoded>'' of
              Some j \<Rightarrow> Some (take j (drop 25 cs))
            | None \<Rightarrow> contentMatch cs)
      else contentMatch cs)"

definition contentOf :: "string \<Rightarrow> string" where
  "contentOf block = (case contentMatch block of Some g \<Rightarrow> g | None \<Rightarrow> [])"

text \<open>The loop over \<open>catRegex\<close>: the trimmed group of every match, in order.\<close>

function categoriesOf :: "string \<Rightarrow> string list" where
  "categoriesOf [] = []"
| "categoriesOf (c # cs) =
     (if prefix ''<category>'' (c # cs)
      then (let r = drop 9 cs;
                cdata = (if prefix ''<![CDATA['' r
                         then indexOf (drop 9 r) '']]></category>''
                         else None)
            in case cdata of
                 Some j \<Rightarrow> trim (take j (drop 9 r)) # categoriesOf (drop (9 + j + 14) r)
               | None \<Rightarrow>
                   (let run = takeWhile (\<lambda>x. x \<noteq> CHR ''<'') r;
                        r' = dropWhile (\<lambda>x. x \<noteq> CHR ''<'') r
                    in if prefix ''</category>'' r'
                       then trim run # categoriesOf (drop 11 r')
                       else categoriesOf cs))
      else categoriesOf cs)"
  by pat_completeness auto
termination
proof (relation "measure length", goal_cases)
  case 1
  show ?case by simp
next
  case (2 c cs)
  have "length (dropWhile (\<lambda>x. x \<noteq> c) (drop 9 cs)) \<le> length (drop 9 cs)"
    by (rule length_dropWhile_le)
  with 2 show ?case by auto
next
  case (3 c cs)
  have "length (dropWhile (\<lambda>x. x \<noteq> c) (drop 9 cs)) \<le> length (drop 9 cs)"
    by (rule length_dropWhile_le)
  with 3 show ?case by auto
next
  case (4 c cs)
  have "length (dropWhile (\<lambda>x. x \<noteq> c) (drop 9 cs)) \<le> length (drop 9 cs)"
    by (rule length_dropWhile_le)
  with 4 show ?case by auto
next
  case (5 c cs)
  have "length (dropWhile (\<lambda>x. x \<noteq> c) (drop 9 cs)) \<le> length (drop 9 cs)"
    by (rule length_dropWhile_le)
  with 5 show ?case by auto
qed

definition extractItems :: "(string \<Rightarrow> string) \<Rightarrow> string \<Rightarrow> item list" where
  "extractItems decode xml =
     map (\<lambda>block. \<lparr>title = get decode block ''title'',
                    link = get decode block ''link'',
                    pubDate = get decode block ''pubDate'',
                    contentEncoded = contentOf block,
                    categories = categoriesOf block\<rparr>)
         (itemBlocks xml)"

section \<open>The escaped form of a character\<close>

text \<open>
  The Escaping property of the specification, character by character: each of the four
  reserved characters stands for its entity, every other character for itself.
\<close>

definition escapedForm :: "char \<Rightarrow> string" where
  \<open>escapedForm c =
     (if c = CHR ''&'' then ''&amp;''
      else if c = CHR ''<'' then ''&lt;''
      else if c = CHR ''>'' then ''&gt;''
      else if c = CHR ''"'' then ''&quot;''
      else [c])\<close>

section \<open>Sample inputs\<close>

text \<open>
  Concrete inputs on which the theorems below are instantiated. For sync-events: renderers for events that
  are plain strings (every card is the event's text), and a configured first run (no
  manifest file yet) with the given pages and fetched event lists.
\<close>

definition plain_renderers :: "(string, string) renderers" where
  "plain_renderers =
     \<lparr>generateEventsPageUpcomingCard = id, generateEventsPagePastCard = id,
      generateHomepageCard = id, extractEventData = id\<rparr>"

definition first_run ::
  "string option \<Rightarrow> string option \<Rightarrow> string list \<Rightarrow> string list \<Rightarrow> (string, string) events_run" where
  "first_run events_html index_html ups ps =
     \<lparr>configured = True, manifestFile = None, upcomingFetch = Inr ups, pastFetch = Inr ps,
      eventsPage = events_html, indexPage = index_html, now = ''2026-02-15T19:00:00.000Z''\<rparr>"

text \<open>
  An events page that has the markers of its past section and no others, and thirteen
  past events, told apart by their names.
\<close>

definition past_only_page :: string where
  "past_only_page = ''<h2>Past</h2><!-- EVENTS-PAST-START -->old<!-- EVENTS-PAST-END -->''"

definition thirteen_past :: "string list" where
  "thirteen_past =
     [''past 01'', ''past 02'', ''past 03'', ''past 04'', ''past 05'', ''past 06'', ''past 07'',
      ''past 08'', ''past 09'', ''past 10'', ''past 11'', ''past 12'', ''past 13'']"

text \<open>
  For sync-medium: a stand-in for the URL constructor on plain links. For
  \<open>http://\<close> or \<open>https://\<close>, a host of lower-case letters and dots that ends in a
  letter (so that no label of it is read as a number or as an encoded name) and
  a path of letters, digits, \<open>-\<close>, \<open>_\<close> and \<open>/\<close>, optionally followed by a query string
  or a fragment, \<open>new URL(s).pathname\<close> is the path, or \<open>/\<close> when the path is empty. A
  string that does not start with a scheme makes the constructor throw. Every other
  string is left out of the stand-in and gives \<open>None\<close> as well, so the stand-in is used
  on links of the first two kinds only; the theorems about
  \<open>main\<close> are stated for an arbitrary \<open>urlPathname\<close> and do not depend on it.
\<close>

definition url_pathname :: "string \<Rightarrow> string option" where
  "url_pathname s =
     (let r = (if prefix ''https://'' s then Some (drop 8 s)
               else if prefix ''http://'' s then Some (drop 7 s)
               else None)
      in case r of
           None \<Rightarrow> None
         | Some r \<Rightarrow>
             (let host = takeWhile (\<lambda>c. c \<notin> set ''/?#'') r;
                  path = takeWhile (\<lambda>c. c \<notin> set ''?#'') (dropWhile (\<lambda>c. c \<notin> set ''/?#'') r)
              in if host \<noteq> []
                    \<and> list_all (\<lambda>c. c \<in> set ''abcdefghijklmnopqrstuvwxyz.'') host
                    \<and> last host \<noteq> CHR ''.''
                    \<and> list_all (\<lambda>c. c \<in> set ''abcdefghijklmnopqrstuvwxyzABCDEFGHIJKLMNOPQRSTUVWXYZ0123456789-_/'') path
                 then Some (if path = [] then ''/'' else path)
                 else None))"

text \<open>
  An environment with that stand-in, numbers printed by their digits (the samples stay
  within \<open>2^53\<close>), dates and categories left as they are, no images,
  no subtitle, a read time of 2 and a page template cut down to its tags.
\<close>

definition plain_env :: blog_env where
  \<open>plain_env =
     \<lparr>urlPathname = url_pathname, numberToString = numToString, formatDate = id, titleCase = id, decodeHtmlEntities = id,
      extractHeroImage = (\<lambda>_. []), extractCardImage = (\<lambda>_. []), extractSubtitle = (\<lambda>_. []),
      cleanBodyHtml = id, estimateReadTime = (\<lambda>_. 2),
      pageAfterTitle = ''</title><img src="'', pageAfterBody = ''</html>''\<rparr>\<close>

text \<open>A feed item with the given title and link and nothing else.\<close>

definition bare_item :: "string \<Rightarrow> string \<Rightarrow> item" where
  "bare_item t l = \<lparr>title = t, link = l, pubDate = [], contentEncoded = [], categories = []\<rparr>"

text \<open>
  A manifest holding one post, number 5, and a run on it with the given feed items and
  a blog list page that has the card grid.
\<close>

definition sample_manifest :: manifest where
  "sample_manifest =
     \<lparr>posts = [\<lparr>number = 5, postTitle = ''First Light'',
                 mediumUrl = ''https://x.com/first-light'', fileName = ''post-5.html'',
                 postDate = ''Feb 1, 2026'', postCategory = ''Journal''\<rparr>],
      lastPostNumber = 5\<rparr>"

definition sample_run :: "item list \<Rightarrow> blog_run" where
  \<open>sample_run items =
     \<lparr>feed = Inr items, blogManifest = Some sample_manifest,
      blogList = Some ''<main><div class="article-grid"></div></main>''\<rparr>\<close>

text \<open>
  A run whose manifest has no post and the counter \<open>2^53 - 1\<close>, the largest integer
  whose successor is still told apart from it by a double; \<open>2^53\<close>, the next value
  of the counter, is printed by its digits.
\<close>

definition counter_edge_run :: "item list \<Rightarrow> blog_run" where
  \<open>counter_edge_run items =
     \<lparr>feed = Inr items,
      blogManifest = Some \<lparr>posts = [], lastPostNumber = 9007199254740991\<rparr>,
      blogList = Some ''<main><div class="article-grid"></div></main>''\<rparr>\<close>

text \<open>
  An events run in which nothing changed: the manifest on disk has no events, the two
  fetches return none, and index.html already holds, between its two markers, what a run
  without events puts there.
\<close>

definition synced_index_page :: string where
  \<open>synced_index_page =
     ''<ul><!-- HOMEPAGE-EVENTS-START -->'' @ [newline]
     @ ''                    <p class="events__empty stagger-item">Events are coming soon. Follow us on <a href="https://instagram.com/yvonne.holistique/" target="_blank">Instagram</a> for updates.</p>''
     @ [newline] @ ''<!-- HOMEPAGE-EVENTS-END --></ul>''\<close>

definition unchanged_run :: "(string, string) events_run" where
  "unchanged_run =
     (first_run None (Some synced_index_page) [] [])
     \<lparr>manifestFile := Some \<lparr>lastSync = Some ''2026-02-14T19:00:00.000Z'',
                              upcoming = [], past = []\<rparr>\<rparr>"

section \<open>Facts about indexOf\<close>

lemma indexOf_Some_prefix:
  "indexOf h m = Some i \<Longrightarrow> prefix m (drop i h)"
proof (induction h arbitrary: i)
  case Nil
  then show ?case by (simp split: if_splits)
next
  case (Cons c cs)
  show ?case
  proof (cases "prefix m (c # cs)")
    case True
    with Cons.prems show ?thesis by simp
  next
    case False
    with Cons.prems obtain k where "indexOf cs m = Some k" "i = Suc k"
      by auto
    with Cons.IH show ?thesis by simp
  qed
qed

lemma indexOf_Some_first:
  "indexOf h m = Some i \<Longrightarrow> j < i \<Longrightarrow> \<not> prefix m (drop j h)"
proof (induction h arbitrary: i j)
  case Nil
  then show ?case by (simp split: if_splits)
next
  case (Cons c cs)
  show ?case
  proof (cases "prefix m (c # cs)")
    case True
    with Cons.prems show ?thesis by simp
  next
    case False
    with Cons.prems obtain k where k: "indexOf cs m = Some k" "i = Suc k"
      by auto
    show ?thesis
    proof (cases j)
      case 0
      with False show ?thesis by simp
    next
      case (Suc j')
      with k Cons.prems have "j' < k" by simp
      with Cons.IH k Suc show ?thesis by simp
    qed
  qed
qed

lemma indexOf_Some_in_range:
  "indexOf h m = Some i \<Longrightarrow> i \<le> length h"
  by (induction h arbitrary: i) (auto split: if_splits)

lemma indexOf_None_iff:
  "indexOf h m = None \<longleftrightarrow> \<not> sublist m h"
proof (induction h)
  case Nil
  then show ?case by auto
next
  case (Cons c cs)
  then show ?case by (auto simp: sublist_Cons_right)
qed

lemma indexOf_Some_decomp:
  assumes "indexOf h m = Some i"
  shows "h = take i h @ m @ drop (i + length m) h"
proof -
  from assms have "prefix m (drop i h)" by (rule indexOf_Some_prefix)
  then obtain r where r: "drop i h = m @ r" by (auto simp: prefix_def)
  then have "drop (length m) (drop i h) = r" by simp
  then have "r = drop (i + length m) h" by (simp add: add.commute)
  with r have "drop i h = m @ drop (i + length m) h" by simp
  then have "take i h @ drop i h = take i h @ m @ drop (i + length m) h" by simp
  then show ?thesis by simp
qed

lemma indexOf_drop:
  "indexOf h m = Some j \<Longrightarrow> n \<le> j \<Longrightarrow> indexOf (drop n h) m = Some (j - n)"
proof (induction h arbitrary: n j)
  case Nil
  then show ?case by (simp split: if_splits)
next
  case (Cons c cs)
  show ?case
  proof (cases "prefix m (c # cs)")
    case True
    with Cons.prems show ?thesis by simp
  next
    case False
    with Cons.prems obtain k where k: "indexOf cs m = Some k" "j = Suc k"
      by auto
    show ?thesis
    proof (cases n)
      case 0
      with Cons.prems show ?thesis by simp
    next
      case (Suc n')
      with k Cons.prems have "n' \<le> k" by simp
      with Cons.IH k have "indexOf (drop n' cs) m = Some (k - n')" by simp
      with Suc k show ?thesis by simp
    qed
  qed
qed

section \<open>Facts about the events run\<close>

lemma filesWritten_append [simp]:
  "filesWritten (xs @ ys) = filesWritten xs @ filesWritten ys"
  by (induction xs rule: filesWritten.induct) simp_all

lemma manifestsWritten_append [simp]:
  "manifestsWritten (xs @ ys) = manifestsWritten xs @ manifestsWritten ys"
  by (induction xs rule: manifestsWritten.induct) simp_all

lemma warnings_append [simp]:
  "warnings (xs @ ys) = warnings xs @ warnings ys"
  by (induction xs rule: warnings.induct) simp_all

lemma replaceSection_None_iff:
  "replaceSection html b e c = None \<longleftrightarrow> \<not> sublist b html \<or> \<not> sublist e html"
  by (auto simp: replaceSection_def indexOf_None_iff [symmetric] split: option.splits)

lemma updateIndexPage_files:
  "filesWritten (updateIndexPage R ups page) =
     (case page of None \<Rightarrow> []
      | Some h \<Rightarrow> (case replaceSection h ''<!-- HOMEPAGE-EVENTS-START -->''
                  ''<!-- HOMEPAGE-EVENTS-END -->'' (homepageContent R ups) of
            None \<Rightarrow> [] | Some u \<Rightarrow> [(INDEX_PATH, u)]))"
  by (simp add: updateIndexPage_def split: option.splits)

lemma updateIndexPage_warnings:
  "warnings (updateIndexPage R ups page) =
     (case page of None \<Rightarrow> [''  Warning: index.html not found. Skipping homepage update.'']
      | Some h \<Rightarrow> (case replaceSection h ''<!-- HOMEPAGE-EVENTS-START -->''
                  ''<!-- HOMEPAGE-EVENTS-END -->'' (homepageContent R ups) of
            None \<Rightarrow> [''  Warning: Could not find HOMEPAGE-EVENTS markers in index.html. Skipping homepage update.'']
          | Some u \<Rightarrow> []))"
  by (simp add: updateIndexPage_def split: option.splits)

lemma updateIndexPage_manifests:
  "manifestsWritten (updateIndexPage R ups page) = []"
  by (simp add: updateIndexPage_def split: option.splits)

lemma updateEventsPage_files:
  "filesWritten (updateEventsPage R ups ps page) =
     (case page of None \<Rightarrow> []
      | Some h \<Rightarrow>
         (case replaceSection h ''<!-- EVENTS-UPCOMING-START -->''
                         ''<!-- EVENTS-UPCOMING-END -->'' (upcomingContent R ups) of
            None \<Rightarrow>
              (case replaceSection h ''<!-- EVENTS-PAST-START -->''
                         ''<!-- EVENTS-PAST-END -->'' (pastContent R ps) of
                 None \<Rightarrow> [] | Some p \<Rightarrow> [(EVENTS_PAGE_PATH, p)])
          | Some u \<Rightarrow>
              (case replaceSection u ''<!-- EVENTS-PAST-START -->''
                         ''<!-- EVENTS-PAST-END -->'' (pastContent R ps) of
                 None \<Rightarrow> [(EVENTS_PAGE_PATH, u)] | Some p \<Rightarrow> [(EVENTS_PAGE_PATH, p)])))"
  by (simp add: updateEventsPage_def split: option.splits)

lemma updateEventsPage_manifests:
  "manifestsWritten (updateEventsPage R ups ps page) = []"
  by (simp add: updateEventsPage_def split: option.splits)

lemma updateEventsPage_warnings:
  "warnings (updateEventsPage R ups ps page) =
     (case page of None \<Rightarrow> [''  Warning: events.html not found. Skipping events page update.'']
      | Some h \<Rightarrow>
         (case replaceSection h ''<!-- EVENTS-UPCOMING-START -->''
                         ''<!-- EVENTS-UPCOMING-END -->'' (upcomingContent R ups) of
            None \<Rightarrow>
              ''  Warning: Could not find EVENTS-UPCOMING markers in events.html. Skipping upcoming section.''
              # (case replaceSection h ''<!-- EVENTS-PAST-START -->''
                         ''<!-- EVENTS-PAST-END -->'' (pastContent R ps) of
                 None \<Rightarrow> [''  Warning: Could not find EVENTS-PAST markers in events.html. Skipping past section.'']
               | Some p \<Rightarrow> [])
          | Some u \<Rightarrow>
              (case replaceSection u ''<!-- EVENTS-PAST-START -->''
                         ''<!-- EVENTS-PAST-END -->'' (pastContent R ps) of
                 None \<Rightarrow> [''  Warning: Could not find EVENTS-PAST markers in events.html. Skipping past section.'']
               | Some p \<Rightarrow> [])))"
  by (simp add: updateEventsPage_def split: option.splits)

lemma main_events_files:
  assumes "configured inp" "upcomingFetch inp = Inr ups" "pastFetch inp = Inr ps"
  shows "filesWritten (fst (main_events R inp))
       = filesWritten (updateEventsPage R ups (take 12 ps) (eventsPage inp))
         @ filesWritten (updateIndexPage R ups (indexPage inp))"
  using assms by (simp add: main_events_def Let_def split: option.splits)

lemma main_events_warnings:
  assumes "configured inp" "upcomingFetch inp = Inr ups" "pastFetch inp = Inr ps"
  shows "warnings (fst (main_events R inp))
       = warnings (updateEventsPage R ups (take 12 ps) (eventsPage inp))
         @ warnings (updateIndexPage R ups (indexPage inp))"
  using assms by (simp add: main_events_def Let_def split: option.splits)

lemma main_events_manifests:
  assumes "configured inp" "upcomingFetch inp = Inr ups" "pastFetch inp = Inr ps"
  shows "manifestsWritten (fst (main_events R inp))
       = [(case manifestFile inp of Some m \<Rightarrow> m
            | None \<Rightarrow> \<lparr>lastSync = None, upcoming = [], past = []\<rparr>)
          \<lparr>lastSync := Some (now inp), upcoming := map (extractEventData R) ups,
            past := map (extractEventData R) (take 12 ps)\<rparr>]"
  using assms
  by (simp add: main_events_def Let_def updateEventsPage_manifests updateIndexPage_manifests
           split: option.splits)

lemma main_events_exit:
  assumes "configured inp" "upcomingFetch inp = Inr ups" "pastFetch inp = Inr ps"
  shows "snd (main_events R inp) = 0"
  using assms by (simp add: main_events_def Let_def split: option.splits)

lemma main_events_abort_manifests:
  "\<not> configured inp \<or> (\<exists>e. upcomingFetch inp = Inl e) \<or> (\<exists>e. pastFetch inp = Inl e)
   \<Longrightarrow> manifestsWritten (fst (main_events R inp)) = [] \<and> filesWritten (fst (main_events R inp)) = []"
  by (auto simp add: main_events_def Let_def split: option.splits sum.splits)

lemma updateEventsPage_paths:
  "(p, w) \<in> set (filesWritten (updateEventsPage R ups ps page)) \<Longrightarrow> p = EVENTS_PAGE_PATH"
  by (cases page) (auto simp add: updateEventsPage_files split: option.split_asm)

lemma updateIndexPage_paths:
  "(p, w) \<in> set (filesWritten (updateIndexPage R ups page)) \<Longrightarrow> p = INDEX_PATH"
  by (cases page) (auto simp add: updateIndexPage_files split: option.split_asm)

lemma paths_differ: "EVENTS_PAGE_PATH \<noteq> INDEX_PATH"
  by (simp add: EVENTS_PAGE_PATH_def INDEX_PATH_def)

lemma main_events_files_index:
  assumes "configured inp" "upcomingFetch inp = Inr ups" "pastFetch inp = Inr ps"
    and "indexPage inp = Some h"
    and "replaceSection h ''<!-- HOMEPAGE-EVENTS-START -->'' ''<!-- HOMEPAGE-EVENTS-END -->''
           (homepageContent R ups) = Some u"
  shows "(INDEX_PATH, u) \<in> set (filesWritten (fst (main_events R inp)))"
  using assms by (simp add: main_events_files updateIndexPage_files)

lemma main_events_files_events:
  assumes "configured inp" "upcomingFetch inp = Inr ups" "pastFetch inp = Inr ps"
    and "eventsPage inp = Some h"
    and "replaceSection h ''<!-- EVENTS-UPCOMING-START -->'' ''<!-- EVENTS-UPCOMING-END -->''
           (upcomingContent R ups) = Some u"
  shows "\<exists>w. (EVENTS_PAGE_PATH, w) \<in> set (filesWritten (fst (main_events R inp)))"
  using assms by (auto simp add: main_events_files updateEventsPage_files split: option.splits)

lemma main_events_events_written:
  assumes "configured inp" "upcomingFetch inp = Inr ups" "pastFetch inp = Inr ps"
  shows "(EVENTS_PAGE_PATH, w) \<in> set (filesWritten (fst (main_events R inp)))
     \<longleftrightarrow> (EVENTS_PAGE_PATH, w)
            \<in> set (filesWritten (updateEventsPage R ups (take 12 ps) (eventsPage inp)))"
proof -
  have "(EVENTS_PAGE_PATH, w) \<notin> set (filesWritten (updateIndexPage R ups (indexPage inp)))"
    using updateIndexPage_paths paths_differ by metis
  then show ?thesis by (simp add: main_events_files [OF assms])
qed

lemma main_events_index_written:
  assumes "configured inp" "upcomingFetch inp = Inr ups" "pastFetch inp = Inr ps"
  shows "(INDEX_PATH, w) \<in> set (filesWritten (fst (main_events R inp)))
     \<longleftrightarrow> (INDEX_PATH, w) \<in> set (filesWritten (updateIndexPage R ups (indexPage inp)))"
proof -
  have "(INDEX_PATH, w)
      \<notin> set (filesWritten (updateEventsPage R ups (take 12 ps) (eventsPage inp)))"
    using updateEventsPage_paths paths_differ by metis
  then show ?thesis by (simp add: main_events_files [OF assms])
qed

lemma updateIndexPage_written:
  "(INDEX_PATH, w) \<in> set (filesWritten (updateIndexPage R ups (Some h)))
     \<longleftrightarrow> replaceSection h ''<!-- HOMEPAGE-EVENTS-START -->'' ''<!-- HOMEPAGE-EVENTS-END -->''
            (homepageContent R ups) = Some w"
  by (auto simp add: updateIndexPage_files split: option.splits)

lemma updateEventsPage_written:
  "(EVENTS_PAGE_PATH, w) \<in> set (filesWritten (updateEventsPage R ups ps (Some h)))
     \<longleftrightarrow> (case replaceSection
                 (case replaceSection h ''<!-- EVENTS-UPCOMING-START -->''
                         ''<!-- EVENTS-UPCOMING-END -->'' (upcomingContent R ups) of
                    Some u \<Rightarrow> u | None \<Rightarrow> h)
                 ''<!-- EVENTS-PAST-START -->'' ''<!-- EVENTS-PAST-END -->''
                 (pastContent R ps) of
           Some p \<Rightarrow> w = p
         | None \<Rightarrow> replaceSection h ''<!-- EVENTS-UPCOMING-START -->''
                      ''<!-- EVENTS-UPCOMING-END -->'' (upcomingContent R ups) = Some w)"
  by (auto simp add: updateEventsPage_files split: option.splits)

lemma pastContent_cards:
  "ps \<noteq> [] \<Longrightarrow> pastContent R ps = join [newline] (map (generateEventsPagePastCard R) ps)"
  by (simp add: pastContent_def)

section \<open>Facts about the import loop of sync-medium.js\<close>

lemma toDouble_exact: "\<bar>x\<bar> \<le> 2 ^ 53 \<Longrightarrow> toDouble x = x"
  by (simp add: toDouble_def)

lemma jsIncrement_exact: "- (2 ^ 53) \<le> n \<Longrightarrow> n + 1 \<le> 2 ^ 53 \<Longrightarrow> jsIncrement n = n + 1"
  unfolding jsIncrement_def by (rule toDouble_exact) simp

lemma numbersFrom_length [simp]: "length (numbersFrom a k) = k"
  by (induction k arbitrary: a) simp_all

lemma numbersFrom_exact:
  "- (2 ^ 53) \<le> a \<Longrightarrow> a + int k \<le> 2 ^ 53 \<Longrightarrow> numbersFrom a k = [a + 1 .. a + int k]"
proof (induction k arbitrary: a)
  case 0
  then show ?case by simp
next
  case (Suc k)
  have inc: "jsIncrement a = a + 1" using Suc.prems by (intro jsIncrement_exact) simp_all
  have "numbersFrom (a + 1) k = [a + 1 + 1 .. a + 1 + int k]"
    using Suc.prems by (intro Suc.IH) simp_all
  then have "numbersFrom a (Suc k) = (a + 1) # [a + 1 + 1 .. a + int (Suc k)]"
    by (simp add: inc add.commute add.left_commute)
  also have "\<dots> = [a + 1 .. a + int (Suc k)]"
    using upto_rec1 [of "a + 1" "a + int (Suc k)"] by simp
  finally show ?case .
qed

lemma funpow_jsIncrement_exact:
  "- (2 ^ 53) \<le> a \<Longrightarrow> a + int k \<le> 2 ^ 53 \<Longrightarrow> (jsIncrement ^^ k) a = a + int k"
proof (induction k arbitrary: a)
  case 0
  then show ?case by simp
next
  case (Suc k)
  have inc: "jsIncrement a = a + 1" using Suc.prems by (intro jsIncrement_exact) simp_all
  have "(jsIncrement ^^ k) (a + 1) = a + 1 + int k"
    using Suc.prems by (intro Suc.IH) simp_all
  then show ?case by (simp add: funpow_swap1 inc)
qed

lemma importItem_nextNumber: "nextNumber (importItem E st item) = jsIncrement (nextNumber st)"
  by (simp add: importItem_def Let_def)

lemma importItem_posts:
  "manifestPosts (importItem E st item)
     = manifestPosts st @ [manifestEntry E (jsIncrement (nextNumber st)) item]"
  by (simp add: importItem_def manifestEntry_def Let_def)

lemma importItem_manifests:
  "manifestsWritten (loopOut (importItem E st item)) = manifestsWritten (loopOut st)"
  by (simp add: importItem_def Let_def)

lemma importItem_warnings:
  "warnings (loopOut (importItem E st item)) = warnings (loopOut st)"
  by (simp add: importItem_def Let_def)

lemma loop_nextNumber:
  "nextNumber (foldl (importItem E) st xs) = (jsIncrement ^^ length xs) (nextNumber st)"
  by (induction xs arbitrary: st) (simp_all add: importItem_nextNumber funpow_swap1)

lemma loop_manifests:
  "manifestsWritten (loopOut (foldl (importItem E) st xs)) = manifestsWritten (loopOut st)"
  by (induction xs arbitrary: st) (simp_all add: importItem_manifests)

lemma loop_warnings:
  "warnings (loopOut (foldl (importItem E) st xs)) = warnings (loopOut st)"
  by (induction xs arbitrary: st) (simp_all add: importItem_warnings)

lemma loop_posts:
  "manifestPosts (foldl (importItem E) st xs)
     = manifestPosts st
       @ map (\<lambda>(n, item). manifestEntry E n item)
           (zip (numbersFrom (nextNumber st) (length xs)) xs)"
  by (induction xs arbitrary: st) (simp_all add: importItem_posts importItem_nextNumber)

lemma loop_numbers:
  assumes "length ns = length xs"
  shows "map number (map (\<lambda>(n, item). manifestEntry E n item) (zip ns xs)) = ns"
proof -
  have "map number (map (\<lambda>(n, item). manifestEntry E n item) (zip ns xs))
      = map fst (zip ns xs)"
    by (simp add: manifestEntry_def case_prod_beta comp_def)
  also have "\<dots> = ns"
    using assms by (rule map_fst_zip)
  finally show ?thesis .
qed

lemma loop_titles_links:
  assumes "length ns = length xs"
  shows "map (\<lambda>p. (postTitle p, mediumUrl p))
           (map (\<lambda>(n, item). manifestEntry E n item) (zip ns xs))
       = map (\<lambda>item. (title item, link item)) xs"
proof -
  have snd: "map snd (zip ns xs) = xs"
    using assms by (rule map_snd_zip)
  have "map (\<lambda>p. (postTitle p, mediumUrl p))
       (map (\<lambda>(n, item). manifestEntry E n item) (zip ns xs))
      = map ((\<lambda>item. (title item, link item)) \<circ> snd) (zip ns xs)"
    by (simp add: manifestEntry_def case_prod_beta comp_def)
  also have "\<dots> = map (\<lambda>item. (title item, link item)) (map snd (zip ns xs))"
    by (simp only: map_map)
  finally show ?thesis by (simp only: snd)
qed

lemma insertCards_manifests: "manifestsWritten (insertCards html cards) = []"
  by (simp add: insertCards_def Let_def split: option.splits)

lemma main_blog_manifests:
  assumes "feed inp = Inr items" "blogManifest inp = Some m" "blogList inp = Some html"
  shows "manifestsWritten (fst (main_blog E inp))
       = (if newItems E m items = [] then []
          else [\<lparr>posts = posts m
                   @ map (\<lambda>(n, item). manifestEntry E n item)
                       (zip (numbersFrom (lastPostNumber m) (length (newItems E m items)))
                            (newItems E m items)),
                 lastPostNumber
                   = (jsIncrement ^^ length (newItems E m items)) (lastPostNumber m)\<rparr>])"
  using assms
  by (simp add: main_blog_def Let_def loop_manifests insertCards_manifests loop_posts
        loop_nextNumber)

lemma main_blog_nothing_new:
  assumes "feed inp = Inr items" "blogManifest inp = Some m" "newItems E m items = []"
  shows "main_blog E inp
       = ([Log ''Fetching Medium RSS feed...'',
           Log (''Found '' @ digits (length items) @ '' items in RSS feed.''),
           Log ''No new posts found. Everything is up to date.''], 0)"
  using assms by (simp add: main_blog_def Let_def)

lemma newItems_append: "newItems E m (xs @ ys) = newItems E m xs @ newItems E m ys"
  by (simp add: newItems_def)

lemma newItems_filter_absent:
  assumes "toLowerCase t \<notin> existingTitles m" and "pathName E l \<notin> existingUrls E m"
  shows "filter (\<lambda>item. title item = t \<and> link item = l) (newItems E m items)
       = filter (\<lambda>item. title item = t \<and> link item = l) items"
proof -
  have "filter (\<lambda>item. title item = t \<and> link item = l) (newItems E m items)
      = filter (\<lambda>item. (toLowerCase (title item) \<notin> existingTitles m
                          \<and> pathName E (link item) \<notin> existingUrls E m)
                        \<and> title item = t \<and> link item = l) items"
    by (simp add: newItems_def)
  also have "\<dots> = filter (\<lambda>item. title item = t \<and> link item = l) items"
    using assms by (intro filter_cong) auto
  finally show ?thesis .
qed

lemma count_posts_by_key:
  assumes "map (\<lambda>p. (postTitle p, mediumUrl p)) new = map (\<lambda>item. (title item, link item)) xs"
  shows "length (filter (\<lambda>p. postTitle p = t \<and> mediumUrl p = l) new)
       = length (filter (\<lambda>item. title item = t \<and> link item = l) xs)"
proof -
  have "length (filter (\<lambda>p. postTitle p = t \<and> mediumUrl p = l) new)
      = length (filter (\<lambda>k. k = (t, l)) (map (\<lambda>p. (postTitle p, mediumUrl p)) new))"
    by (simp add: filter_map comp_def)
  also have "\<dots> = length (filter (\<lambda>k. k = (t, l)) (map (\<lambda>item. (title item, link item)) xs))"
    by (simp only: assms)
  also have "\<dots> = length (filter (\<lambda>item. title item = t \<and> link item = l) xs)"
    by (simp add: filter_map comp_def)
  finally show ?thesis .
qed

lemma stripTrailingSlash_snoc:
  "p = [] \<or> last p \<noteq> CHR ''/'' \<Longrightarrow> stripTrailingSlash (p @ ''/'') = stripTrailingSlash p"
  by (auto simp: stripTrailingSlash_def)

lemma known_by_url:
  assumes "p \<in> set (posts m)" and "pathName E (link item) = pathName E (mediumUrl p)"
  shows "item \<notin> set (newItems E m items)"
  using assms by (auto simp: newItems_def existingUrls_def)

lemma insertCards_warnings:
  "set (warnings (insertCards html cards))
     \<subseteq> {''  Warning: Could not find article-grid in blog-post.html. Cards not inserted.''}"
  by (simp add: insertCards_def Let_def split: option.splits)

lemma main_blog_warnings:
  assumes "feed inp = Inr items" "blogManifest inp = Some m" "blogList inp = Some html"
  shows "set (warnings (fst (main_blog E inp)))
     \<subseteq> {''  Warning: Could not find article-grid in blog-post.html. Cards not inserted.''}"
  using assms insertCards_warnings
  by (simp add: main_blog_def Let_def loop_warnings)

lemma main_blog_exit:
  assumes "feed inp = Inr items" "blogManifest inp = Some m" "blogList inp = Some html"
  shows "snd (main_blog E inp) = 0"
  using assms by (simp add: main_blog_def Let_def)

lemma entry_of_new_item:
  assumes "x \<in> set xs" and "length ns = length xs"
  shows "\<exists>n \<in> set ns. manifestEntry E n x
      \<in> set (map (\<lambda>(n, item). manifestEntry E n item) (zip ns xs))"
proof -
  from assms obtain i where i: "i < length xs" "xs ! i = x"
    by (auto simp: in_set_conv_nth)
  with assms(2) have "zip ns xs ! i = (ns ! i, x)" by simp
  moreover have "i < length (zip ns xs)" using i assms(2) by simp
  ultimately have "(ns ! i, x) \<in> set (zip ns xs)"
    by (metis nth_mem)
  then have "manifestEntry E (ns ! i) x
      \<in> set (map (\<lambda>(n, item). manifestEntry E n item) (zip ns xs))"
    by force
  moreover have "ns ! i \<in> set ns" using i assms(2) by simp
  ultimately show ?thesis by blast
qed

section \<open>Facts about escapeHtml and the two templates\<close>

lemma replaceChar_Nil [simp]: "replaceChar c r [] = []"
  by (simp add: replaceChar_def)

lemma replaceChar_Cons:
  "replaceChar c r (x # xs) = (if x = c then r else [x]) @ replaceChar c r xs"
  by (simp add: replaceChar_def)

lemma replaceChar_append:
  "replaceChar c r (xs @ ys) = replaceChar c r xs @ replaceChar c r ys"
  by (simp add: replaceChar_def)

lemma escapeHtml_Nil: "escapeHtml [] = []"
  by (simp add: escapeHtml_def)

lemma escapeHtml_Cons: "escapeHtml (x # xs) = escapedForm x @ escapeHtml xs"
  by (simp add: escapeHtml_def escapedForm_def replaceChar_Cons replaceChar_append)

lemma escapeHtml_concat: "escapeHtml s = concat (map escapedForm s)"
  by (induction s) (simp_all add: escapeHtml_Nil escapeHtml_Cons)

lemma escapeHtml_chars:
  \<open>CHR ''<'' \<notin> set (escapeHtml s) \<and> CHR ''>'' \<notin> set (escapeHtml s)
   \<and> CHR ''"'' \<notin> set (escapeHtml s)\<close>
  by (induction s) (simp_all add: escapeHtml_Nil escapeHtml_Cons escapedForm_def)

lemma hole_here: "\<exists>a b. \<forall>x. h x @ r = a @ h x @ b"
proof -
  have "\<forall>x. h x @ r = [] @ h x @ r" by simp
  then show ?thesis by blast
qed

lemma hole_later:
  assumes "\<exists>a b. \<forall>x. R x = a @ h x @ b"
  shows "\<exists>a b. \<forall>x. p @ R x = a @ h x @ b"
proof -
  from assms obtain a b where "\<forall>x. R x = a @ h x @ b" by blast
  then have "\<forall>x. p @ R x = (p @ a) @ h x @ b" by simp
  then show ?thesis by blast
qed

lemma hole2_first:
  assumes "\<exists>a b. \<forall>x. R x = a @ h x @ b"
  shows "\<exists>a b c. \<forall>x. h x @ R x = a @ h x @ b @ h x @ c"
proof -
  from assms obtain a b where "\<forall>x. R x = a @ h x @ b" by blast
  then have "\<forall>x. h x @ R x = [] @ h x @ a @ h x @ b" by simp
  then show ?thesis by blast
qed

lemma hole2_later:
  assumes "\<exists>a b c. \<forall>x. R x = a @ h x @ b @ h x @ c"
  shows "\<exists>a b c. \<forall>x. p @ R x = a @ h x @ b @ h x @ c"
proof -
  from assms obtain a b c where "\<forall>x. R x = a @ h x @ b @ h x @ c" by blast
  then have "\<forall>x. p @ R x = (p @ a) @ h x @ b @ h x @ c" by simp
  then show ?thesis by blast
qed

lemma hole3_first:
  assumes "\<exists>a b c. \<forall>x. R x = a @ h x @ b @ h x @ c"
  shows "\<exists>a b c e. \<forall>x. h x @ R x = a @ h x @ b @ h x @ c @ h x @ e"
proof -
  from assms obtain a b c where "\<forall>x. R x = a @ h x @ b @ h x @ c" by blast
  then have "\<forall>x. h x @ R x = [] @ h x @ a @ h x @ b @ h x @ c" by simp
  then show ?thesis by blast
qed

lemma hole3_later:
  assumes "\<exists>a b c e. \<forall>x. R x = a @ h x @ b @ h x @ c @ h x @ e"
  shows "\<exists>a b c e. \<forall>x. p @ R x = a @ h x @ b @ h x @ c @ h x @ e"
proof -
  from assms obtain a b c e where "\<forall>x. R x = a @ h x @ b @ h x @ c @ h x @ e" by blast
  then have "\<forall>x. p @ R x = (p @ a) @ h x @ b @ h x @ c @ h x @ e" by simp
  then show ?thesis by blast
qed

lemma card_title_holes:
  "\<exists>a b c. \<forall>t. generateCardHtml E n t cat ex rt d img = a @ escapeHtml t @ b @ escapeHtml t @ c"
  unfolding generateCardHtml_def
  apply (rule hole2_later)+
  apply (rule hole2_first)
  apply (rule hole_later)+
  apply (rule hole_here)
  done

lemma card_category_hole:
  "\<exists>a b. \<forall>cat. generateCardHtml E n t cat ex rt d img = a @ escapeHtml cat @ b"
  unfolding generateCardHtml_def
  apply (rule hole_later)+
  apply (rule hole_here)
  done

lemma card_excerpt_hole:
  "\<exists>a b. \<forall>ex. generateCardHtml E n t cat ex rt d img = a @ escapeHtml ex @ b"
  unfolding generateCardHtml_def
  apply (rule hole_later)+
  apply (rule hole_here)
  done

lemma card_image_hole:
  "\<exists>a b. \<forall>img. generateCardHtml E n t cat ex rt d img = a @ img @ b"
  unfolding generateCardHtml_def
  apply (rule hole_later)+
  apply (rule hole_here)
  done

lemma post_title_holes:
  "\<exists>a b c e. \<forall>t. generatePostHtml E t sub cat d rt hero body
      = a @ escapeHtml t @ b @ escapeHtml t @ c @ escapeHtml t @ e"
  unfolding generatePostHtml_def
  apply (rule hole3_later)+
  apply (rule hole3_first)
  apply (rule hole2_later)+
  apply (rule hole2_first)
  apply (rule hole_later)+
  apply (rule hole_here)
  done

lemma post_category_hole:
  "\<exists>a b. \<forall>cat. generatePostHtml E t sub cat d rt hero body = a @ escapeHtml cat @ b"
  unfolding generatePostHtml_def
  apply (rule hole_later)+
  apply (rule hole_here)
  done

lemma post_subtitle_hole:
  "\<exists>a b. \<forall>sub. generatePostHtml E t sub cat d rt hero body = a @ escapeHtml sub @ b"
  unfolding generatePostHtml_def
  apply (rule hole_later)+
  apply (rule hole_here)
  done

lemma post_image_hole:
  "\<exists>a b. \<forall>hero. generatePostHtml E t sub cat d rt hero body = a @ hero @ b"
  unfolding generatePostHtml_def
  apply (rule hole_later)+
  apply (rule hole_here)
  done

lemma card_date_hole:
  "\<exists>a b. \<forall>d. generateCardHtml E n t cat ex rt d img = a @ d @ b"
  unfolding generateCardHtml_def
  apply (rule hole_later)+
  apply (rule hole_here)
  done

lemma post_date_hole:
  "\<exists>a b. \<forall>d. generatePostHtml E t sub cat d rt hero body = a @ d @ b"
  unfolding generatePostHtml_def
  apply (rule hole_later)+
  apply (rule hole_here)
  done

lemma post_body_hole:
  "\<exists>a b. \<forall>body. generatePostHtml E t sub cat d rt hero body = a @ body @ b"
  unfolding generatePostHtml_def
  apply (rule hole_later)+
  apply (rule hole_here)
  done

section \<open>Facts about truncateText and extractExcerpt\<close>

lemma lastIndexOfChar_None: "lastIndexOfChar xs c = None \<longleftrightarrow> c \<notin> set xs"
  by (induction xs) (auto split: option.splits)

lemma lastIndexOfChar_Some:
  "lastIndexOfChar xs c = Some k
   \<Longrightarrow> k < length xs \<and> xs ! k = c \<and> c \<notin> set (drop (Suc k) xs)"
proof (induction xs arbitrary: k)
  case Nil
  then show ?case by simp
next
  case (Cons x xs)
  show ?case
  proof (cases "lastIndexOfChar xs c")
    case None
    with Cons.prems have "x = c" "k = 0" by (auto split: if_splits)
    moreover from None have "c \<notin> set xs" by (simp add: lastIndexOfChar_None)
    ultimately show ?thesis by simp
  next
    case (Some j)
    with Cons.prems have "k = Suc j" by simp
    with Cons.IH [OF Some] show ?thesis by simp
  qed
qed

lemma trim_decomp: "\<exists>sp. dropWhile isSpace s = trim s @ sp \<and> (\<forall>c \<in> set sp. isSpace c)"
proof -
  let ?t = "dropWhile isSpace s"
  have "rev (dropWhile isSpace (rev ?t)) @ rev (takeWhile isSpace (rev ?t))
      = rev (takeWhile isSpace (rev ?t) @ dropWhile isSpace (rev ?t))"
    by (simp only: rev_append)
  also have "\<dots> = rev (rev ?t)" by (simp only: takeWhile_dropWhile_id)
  also have "\<dots> = ?t" by simp
  finally have "?t = trim s @ rev (takeWhile isSpace (rev ?t))"
    by (simp add: trim_def)
  moreover have "\<forall>c \<in> set (rev (takeWhile isSpace (rev ?t))). isSpace c"
    by (auto dest: set_takeWhileD)
  ultimately show ?thesis by blast
qed

lemma trim_hd: "trim s \<noteq> [] \<Longrightarrow> \<not> isSpace (hd (trim s))"
proof -
  assume ne: "trim s \<noteq> []"
  obtain sp where sp: "dropWhile isSpace s = trim s @ sp" using trim_decomp by blast
  with ne have d: "dropWhile isSpace s \<noteq> []" by simp
  then have "\<not> isSpace (hd (dropWhile isSpace s))" by (rule hd_dropWhile)
  with sp ne show ?thesis by simp
qed

lemma set_trim: "set (trim s) \<subseteq> set s"
proof -
  obtain sp where "dropWhile isSpace s = trim s @ sp" using trim_decomp by blast
  then have "set (trim s) \<subseteq> set (dropWhile isSpace s)" by simp
  also have "\<dots> \<subseteq> set s" by (auto dest: set_dropWhileD)
  finally show ?thesis .
qed

lemma collapseSpaces_spaces:
  "c \<in> set (collapseSpaces s) \<Longrightarrow> isSpace c \<Longrightarrow> c = CHR '' ''"
  by (induction s rule: collapseSpaces.induct) (auto split: if_splits)

lemma cleanText_spaces: "c \<in> set (cleanText text) \<Longrightarrow> isSpace c \<Longrightarrow> c = CHR '' ''"
  unfolding cleanText_def using set_trim collapseSpaces_spaces by blast

lemma isSpace_space: "isSpace (CHR '' '')"
  by (simp add: isSpace_def)

lemma cleanText_hd: "cleanText text \<noteq> [] \<Longrightarrow> hd (cleanText text) \<noteq> CHR '' ''"
  unfolding cleanText_def using trim_hd isSpace_space by metis

lemma truncateText_short:
  "text \<noteq> [] \<Longrightarrow> length (cleanText text) \<le> maxLen \<Longrightarrow> truncateText text maxLen = cleanText text"
  by (simp add: truncateText_def Let_def)

lemma truncateText_no_space:
  assumes "text \<noteq> []" and "maxLen < length (cleanText text)"
    and "CHR '' '' \<notin> set (take maxLen (cleanText text))"
  shows "truncateText text maxLen = take maxLen (cleanText text) @ ''...''"
proof -
  from assms(3) have "lastIndexOfChar (take maxLen (cleanText text)) (CHR '' '') = None"
    by (simp add: lastIndexOfChar_None)
  with assms(1,2) show ?thesis by (simp add: truncateText_def Let_def)
qed

lemma truncateText_at_space:
  assumes "text \<noteq> []" and "maxLen < length (cleanText text)"
    and "CHR '' '' \<in> set (take maxLen (cleanText text))"
  shows "\<exists>k. 0 < k \<and> k < maxLen \<and> cleanText text ! k = CHR '' ''
           \<and> CHR '' '' \<notin> set (drop (Suc k) (take maxLen (cleanText text)))
           \<and> truncateText text maxLen = take k (cleanText text) @ ''...''"
proof -
  let ?clean = "cleanText text"
  let ?tr = "take maxLen ?clean"
  from assms(3) obtain k where k: "lastIndexOfChar ?tr (CHR '' '') = Some k"
    using lastIndexOfChar_None [of ?tr "CHR '' ''"] by (cases "lastIndexOfChar ?tr (CHR '' '')") auto
  from lastIndexOfChar_Some [OF k]
  have kl: "k < length ?tr" and at: "?tr ! k = CHR '' ''"
    and after: "CHR '' '' \<notin> set (drop (Suc k) ?tr)" by auto
  from kl have km: "k < maxLen" by simp
  from kl at have at': "?clean ! k = CHR '' ''" by simp
  from assms(2) have ne: "?clean \<noteq> []" by auto
  have "k \<noteq> 0"
  proof
    assume "k = 0"
    with at' ne have "hd ?clean = CHR '' ''" by (simp add: hd_conv_nth)
    with cleanText_hd [OF ne] show False by simp
  qed
  then have pos: "0 < k" by simp
  have "take k ?tr = take k ?clean" using km by (simp add: min_def)
  with k pos assms(1,2) have "truncateText text maxLen = take k ?clean @ ''...''"
    by (simp add: truncateText_def Let_def)
  with pos km at' after show ?thesis by blast
qed

lemma extractExcerpt_long:
  assumes "firstParagraph html = Some inner"
    and "160 < length (trim (decode (stripTags inner)))"
  shows "extractExcerpt decode html = take 157 (trim (decode (stripTags inner))) @ ''...''"
  using assms by (simp add: extractExcerpt_def Let_def)

section \<open>Facts about extractItems\<close>

lemma tagMatch_absent: "\<not> sublist (''<'' @ tag) block \<Longrightarrow> tagMatch tag block = None"
  by (induction block) (auto simp: sublist_Cons_right)

lemma get_absent: "\<not> sublist (''<'' @ tag) block \<Longrightarrow> get decode block tag = []"
  by (simp add: get_def tagMatch_absent)

lemma contentMatch_absent:
  "\<not> sublist ''<content:encoded><![CDATA['' block \<Longrightarrow> contentMatch block = None"
  by (induction block) (auto simp: sublist_Cons_right)

lemma contentOf_absent:
  "\<not> sublist ''<content:encoded><![CDATA['' block \<Longrightarrow> contentOf block = []"
  by (simp add: contentOf_def contentMatch_absent)

lemma categoriesOf_absent: "\<not> sublist ''<category>'' block \<Longrightarrow> categoriesOf block = []"
  by (induction block) (auto simp: sublist_Cons_right)

section \<open>Claims about replaceSection\<close>

text \<open>
  C1 (as the code has it). When both markers occur and the first end marker starts at or
  after the end of the first begin marker, the document is \<open>pre @ s @ mid @ e @ post\<close>
  with \<open>pre\<close> the text before the first begin marker and \<open>e\<close> at the first place where
  the end marker occurs, and replaceSection returns
  \<open>pre @ s @ newline @ c @ newline @ e @ post\<close>: both markers and everything outside
  them are kept, and the text between them is replaced by the new content wrapped in
  one line feed on each side. On these documents the result is the specified splice of
  the wrapped content.
\<close>

theorem replaceSection_between_markers:
  assumes s: "indexOf html s = Some i"
    and e: "indexOf html e = Some j"
    and le: "i + length s \<le> j"
  shows "\<exists>mid post. html = take i html @ s @ mid @ e @ post
           \<and> length (take i html @ s @ mid) = j
           \<and> (\<forall>i' < i. \<not> prefix s (drop i' html))
           \<and> (\<forall>j' < j. \<not> prefix e (drop j' html))
           \<and> replaceSection html s e c
               = Some (take i html @ s @ [newline] @ c @ [newline] @ e @ post)
           \<and> replaceSection html s e c = splice_spec html s e ([newline] @ c @ [newline])"
proof -
  define mid where "mid = take (j - (i + length s)) (drop (i + length s) html)"
  define post where "post = drop (j + length e) html"
  have hs: "html = take i html @ s @ drop (i + length s) html"
    using s by (rule indexOf_Some_decomp)
  have he: "html = take j html @ e @ post"
    unfolding post_def using e by (rule indexOf_Some_decomp)
  have i_le: "i \<le> length html" using s by (rule indexOf_Some_in_range)
  have pre: "take (i + length s) html = take i html @ s"
  proof -
    have "take (i + length s) html
        = take (i + length s) (take i html @ s @ drop (i + length s) html)"
      using hs by simp
    also have "\<dots> = take i html @ s" using i_le by simp
    finally show ?thesis .
  qed
  have tj: "take j html = take i html @ s @ mid"
  proof -
    have "take j html
        = take (i + length s) html @ take (j - (i + length s)) (drop (i + length s) html)"
      using le by (metis add_diff_cancel_left' le_Suc_ex take_add)
    then show ?thesis using pre mid_def by simp
  qed
  have dj: "drop j html = e @ post"
  proof -
    have "drop j html = drop j (take j html @ e @ post)" using he by simp
    also have "\<dots> = e @ post"
      using indexOf_Some_in_range [OF e] by simp
    finally show ?thesis .
  qed
  have whole: "html = take i html @ s @ mid @ e @ post"
    using he tj by simp
  have res: "replaceSection html s e c
      = Some (take i html @ s @ [newline] @ c @ [newline] @ e @ post)"
    using s e pre dj by (simp add: replaceSection_def)
  have "indexOf (drop (i + length s) html) e = Some (j - (i + length s))"
    using e le by (rule indexOf_drop)
  then have "splice_spec html s e ([newline] @ c @ [newline])
      = Some (take i html @ s @ [newline] @ c @ [newline] @ e @ post)"
    using s le pre dj by (simp add: splice_spec_def)
  moreover have "length (take i html @ s @ mid) = j"
    using tj indexOf_Some_in_range [OF e] by (metis length_take min.absorb2)
  moreover have "\<forall>i' < i. \<not> prefix s (drop i' html)"
    using indexOf_Some_first [OF s] by blast
  moreover have "\<forall>j' < j. \<not> prefix e (drop j' html)"
    using indexOf_Some_first [OF e] by blast
  ultimately show ?thesis using whole res by metis
qed

theorem replaceSection_between_markers_witness:
  "indexOf ''<b>old<e>'' ''<b>'' = Some 0
   \<and> indexOf ''<b>old<e>'' ''<e>'' = Some 6
   \<and> 0 + length ''<b>'' \<le> (6::nat)
   \<and> (\<exists>mid post. ''<b>old<e>'' = take 0 ''<b>old<e>'' @ ''<b>'' @ mid @ ''<e>'' @ post
         \<and> length (take 0 ''<b>old<e>'' @ ''<b>'' @ mid) = 6
         \<and> replaceSection ''<b>old<e>'' ''<b>'' ''<e>'' ''new''
             = Some (take 0 ''<b>old<e>'' @ ''<b>'' @ [newline] @ ''new'' @ [newline]
                     @ ''<e>'' @ post)
         \<and> replaceSection ''<b>old<e>'' ''<b>'' ''<e>'' ''new''
             = splice_spec ''<b>old<e>'' ''<b>'' ''<e>'' ([newline] @ ''new'' @ [newline]))"
proof -
  have a: "indexOf ''<b>old<e>'' ''<b>'' = Some 0" by simp
  have b: "indexOf ''<b>old<e>'' ''<e>'' = Some 6" by simp
  have c: "0 + length ''<b>'' \<le> (6::nat)" by simp
  from replaceSection_between_markers [OF a b c, of "''new''"] a b c
  show ?thesis by blast
qed

text \<open>
  C1 as worded fails twice. On a document with one marker pair the result carries two
  line feeds that the specified splice does not have. On a document where an end marker
  also stands before the begin marker, the code takes that earlier end marker and
  returns the text up to the begin marker followed by the whole document again.
\<close>

theorem replaceSection_not_exact_splice:
  "replaceSection ''<b>old<e>'' ''<b>'' ''<e>'' ''new''
       = Some (''<b>'' @ [newline] @ ''new'' @ [newline] @ ''<e>'')
   \<and> splice_spec ''<b>old<e>'' ''<b>'' ''<e>'' ''new'' = Some ''<b>new<e>''
   \<and> replaceSection ''<b>old<e>'' ''<b>'' ''<e>'' ''new''
       \<noteq> splice_spec ''<b>old<e>'' ''<b>'' ''<e>'' ''new''
   \<and> replaceSection ''<e>a<b>old<e>'' ''<b>'' ''<e>'' ''new''
       = Some (''<e>a<b>'' @ [newline] @ ''new'' @ [newline] @ ''<e>a<b>old<e>'')
   \<and> splice_spec ''<e>a<b>old<e>'' ''<b>'' ''<e>'' ''new'' = Some ''<e>a<b>new<e>''
   \<and> replaceSection ''<e>a<b>old<e>'' ''<b>'' ''<e>'' ''new''
       \<noteq> splice_spec ''<e>a<b>old<e>'' ''<b>'' ''<e>'' ''new''"
  by (simp add: replaceSection_def splice_spec_def newline_def)

section \<open>Claims about the import of new posts\<close>

text \<open>
  C2 (as the code has it). An item is classified against \<open>existingTitles\<close> and
  \<open>existingUrls\<close>, both built from the manifest before the loop and never updated, so
  the items of one fetch are classified independently of each other. A title and link
  whose keys are both absent from the manifest are imported once for every item of the
  fetch that carries them: a duplicate inside one fetch is imported twice.
\<close>

theorem absent_records_all_imported:
  assumes "feed inp = Inr items" and "blogManifest inp = Some m" and "blogList inp = Some html"
    and t: "toLowerCase t \<notin> existingTitles m" and l: "pathName E l \<notin> existingUrls E m"
    and n: "n = length (filter (\<lambda>item. title item = t \<and> link item = l) items)"
  shows "newItems E m (xs @ ys) = newItems E m xs @ newItems E m ys
    \<and> length (filter (\<lambda>item. title item = t \<and> link item = l) (newItems E m items)) = n
    \<and> (0 < n \<longrightarrow>
          (\<exists>m'. manifestsWritten (fst (main_blog E inp)) = [m']
             \<and> length (filter (\<lambda>p. postTitle p = t \<and> mediumUrl p = l)
                         (drop (length (posts m)) (posts m'))) = n))"
proof (intro conjI impI)
  show "newItems E m (xs @ ys) = newItems E m xs @ newItems E m ys"
    by (rule newItems_append)
  show c: "length (filter (\<lambda>item. title item = t \<and> link item = l) (newItems E m items)) = n"
    using newItems_filter_absent [OF t l] n by simp
  assume pos: "0 < n"
  with c have ne: "newItems E m items \<noteq> []" by auto
  define new where "new = map (\<lambda>(k, item). manifestEntry E k item)
      (zip (numbersFrom (lastPostNumber m) (length (newItems E m items)))
           (newItems E m items))"
  define m' where "m' = \<lparr>posts = posts m @ new,
      lastPostNumber = (jsIncrement ^^ length (newItems E m items)) (lastPostNumber m)\<rparr>"
  have w: "manifestsWritten (fst (main_blog E inp)) = [m']"
    using main_blog_manifests [OF assms(1,2,3), of E] ne by (simp add: m'_def new_def)
  have "map (\<lambda>p. (postTitle p, mediumUrl p)) new
      = map (\<lambda>item. (title item, link item)) (newItems E m items)"
    unfolding new_def by (rule loop_titles_links) simp
  then have "length (filter (\<lambda>p. postTitle p = t \<and> mediumUrl p = l) new)
      = length (filter (\<lambda>item. title item = t \<and> link item = l) (newItems E m items))"
    by (rule count_posts_by_key)
  with c have "length (filter (\<lambda>p. postTitle p = t \<and> mediumUrl p = l) new) = n"
    by simp
  moreover have "drop (length (posts m)) (posts m') = new" by (simp add: m'_def)
  ultimately show "\<exists>m'. manifestsWritten (fst (main_blog E inp)) = [m']
      \<and> length (filter (\<lambda>p. postTitle p = t \<and> mediumUrl p = l)
                  (drop (length (posts m)) (posts m'))) = n"
    using w by auto
qed

theorem absent_records_all_imported_witness:
  "toLowerCase ''Breath & Calm'' \<notin> existingTitles sample_manifest
   \<and> pathName plain_env ''https://x.com/breath-calm'' \<notin> existingUrls plain_env sample_manifest
   \<and> length (filter (\<lambda>item. title item = ''Breath & Calm''
                              \<and> link item = ''https://x.com/breath-calm'')
         (newItems plain_env sample_manifest
            [bare_item ''Breath & Calm'' ''https://x.com/breath-calm'',
             bare_item ''Breath & Calm'' ''https://x.com/breath-calm''])) = 2
   \<and> (\<exists>m'. manifestsWritten (fst (main_blog plain_env (sample_run
            [bare_item ''Breath & Calm'' ''https://x.com/breath-calm'',
             bare_item ''Breath & Calm'' ''https://x.com/breath-calm'']))) = [m']
         \<and> length (filter (\<lambda>p. postTitle p = ''Breath & Calm''
                                 \<and> mediumUrl p = ''https://x.com/breath-calm'')
                     (drop (length (posts sample_manifest)) (posts m'))) = 2)"
proof -
  define items where "items = [bare_item ''Breath & Calm'' ''https://x.com/breath-calm'',
             bare_item ''Breath & Calm'' ''https://x.com/breath-calm'']"
  have f: "feed (sample_run items) = Inr items" by (simp add: sample_run_def)
  have m: "blogManifest (sample_run items) = Some sample_manifest" by (simp add: sample_run_def)
  have b: "blogList (sample_run items) = Some ''<main><div class=\"article-grid\"></div></main>''"
    by (simp add: sample_run_def)
  have t: "toLowerCase ''Breath & Calm'' \<notin> existingTitles sample_manifest" by code_simp
  have l: "pathName plain_env ''https://x.com/breath-calm''
      \<notin> existingUrls plain_env sample_manifest" by code_simp
  have n: "2 = length (filter (\<lambda>item. title item = ''Breath & Calm''
                                     \<and> link item = ''https://x.com/breath-calm'') items)"
    unfolding items_def by (simp add: bare_item_def)
  from absent_records_all_imported [OF f m b t l n] t l
  show ?thesis unfolding items_def by simp
qed

text \<open>
  C2 as worded fails: two items of one fetch with the same title and link, both absent
  from the manifest, are both classified as new, and the manifest that is written holds
  both, as numbers 6 and 7.
\<close>

theorem duplicate_in_one_fetch_both_imported:
  "newItems plain_env sample_manifest
      [bare_item ''Breath & Calm'' ''https://x.com/breath-calm'',
       bare_item ''Breath & Calm'' ''https://x.com/breath-calm'']
     = [bare_item ''Breath & Calm'' ''https://x.com/breath-calm'',
        bare_item ''Breath & Calm'' ''https://x.com/breath-calm'']
   \<and> map (\<lambda>p. (number p, postTitle p, mediumUrl p))
         (concat (map posts (manifestsWritten (fst (main_blog plain_env (sample_run
            [bare_item ''Breath & Calm'' ''https://x.com/breath-calm'',
             bare_item ''Breath & Calm'' ''https://x.com/breath-calm''])))))) 
     = [(5, ''First Light'', ''https://x.com/first-light''),
        (6, ''Breath & Calm'', ''https://x.com/breath-calm''),
        (7, ''Breath & Calm'', ''https://x.com/breath-calm'')]"
  by code_simp

section \<open>Claims about sequence numbers\<close>

text \<open>
  C3 (as the code has it). The counter is a double, and \<open>nextNumber++\<close> adds one in
  double arithmetic. In a run that reaches the manifest write, with \<open>k\<close> new items, a
  counter \<open>lastPostNumber\<close> that is an integer not below \<open>-2^53\<close> and
  \<open>lastPostNumber + k\<close> not above \<open>2^53\<close>: the entries added to \<open>manifest.posts\<close> are
  \<open>k\<close> in number, they carry the numbers \<open>lastPostNumber + 1, ..., lastPostNumber + k\<close>
  in this order (so strictly increasing, without gap or repeat), they are the new items
  in feed order, and the manifest that is written has them behind the old posts and the
  counter \<open>lastPostNumber + k\<close>. With no new item nothing is written, and the counter on
  disk stays \<open>lastPostNumber + 0\<close>. Whatever the counter is, the numbers are the
  successive values of \<open>nextNumber++\<close>, and the counter written is the last of them.
\<close>

theorem sequence_numbers_consecutive:
  assumes "feed inp = Inr items" and "blogManifest inp = Some m" and "blogList inp = Some html"
    and "k = length (newItems E m items)"
    and lo: "- (2 ^ 53) \<le> lastPostNumber m"
    and hi: "lastPostNumber m + int k \<le> 2 ^ 53"
  shows "\<exists>new. length new = k
           \<and> map number new = [lastPostNumber m + 1 .. lastPostNumber m + int k]
           \<and> map number new = numbersFrom (lastPostNumber m) k
           \<and> distinct (map number new) \<and> sorted_wrt (<) (map number new)
           \<and> map (\<lambda>p. (postTitle p, mediumUrl p)) new
               = map (\<lambda>item. (title item, link item)) (newItems E m items)
           \<and> manifestsWritten (fst (main_blog E inp))
               = (if k = 0 then []
                  else [\<lparr>posts = posts m @ new, lastPostNumber = lastPostNumber m + int k\<rparr>])"
proof -
  let ?xs = "newItems E m items"
  let ?a = "lastPostNumber m"
  define new where "new = map (\<lambda>(n, item). manifestEntry E n item)
      (zip (numbersFrom ?a (length ?xs)) ?xs)"
  have len: "length new = k" by (simp add: new_def assms(4))
  have raw: "map number new = numbersFrom ?a k"
    unfolding new_def assms(4) by (rule loop_numbers) simp
  have nums: "map number new = [?a + 1 .. ?a + int k]"
    unfolding raw by (rule numbersFrom_exact [OF lo hi])
  have keys: "map (\<lambda>p. (postTitle p, mediumUrl p)) new
      = map (\<lambda>item. (title item, link item)) ?xs"
    unfolding new_def by (rule loop_titles_links) simp
  have d: "distinct (map number new)" unfolding nums by simp
  have s: "sorted_wrt (<) (map number new)" unfolding nums by simp
  have c: "(jsIncrement ^^ k) ?a = ?a + int k"
    by (rule funpow_jsIncrement_exact [OF lo hi])
  have w: "manifestsWritten (fst (main_blog E inp))
      = (if k = 0 then []
         else [\<lparr>posts = posts m @ new, lastPostNumber = ?a + int k\<rparr>])"
    using main_blog_manifests [OF assms(1,2,3), of E] c by (simp add: new_def assms(4))
  from len nums raw d s keys w show ?thesis by blast
qed

theorem sequence_numbers_consecutive_witness:
  "length (newItems plain_env sample_manifest
            [bare_item ''first light'' ''https://x.com/other'',
             bare_item ''Breath & Calm'' ''https://x.com/breath-calm/'',
             bare_item ''Gong Bath'' ''https://x.com/gong-bath'']) = 2
   \<and> - (2 ^ 53) \<le> lastPostNumber sample_manifest
   \<and> lastPostNumber sample_manifest + int 2 \<le> 2 ^ 53
   \<and> (\<exists>new. length new = 2 \<and> map number new = [6, 7]
          \<and> manifestsWritten (fst (main_blog plain_env (sample_run
                [bare_item ''first light'' ''https://x.com/other'',
                 bare_item ''Breath & Calm'' ''https://x.com/breath-calm/'',
                 bare_item ''Gong Bath'' ''https://x.com/gong-bath''])))
              = [\<lparr>posts = posts sample_manifest @ new, lastPostNumber = 7\<rparr>])"
proof -
  define items where "items = [bare_item ''first light'' ''https://x.com/other'',
             bare_item ''Breath & Calm'' ''https://x.com/breath-calm/'',
             bare_item ''Gong Bath'' ''https://x.com/gong-bath'']"
  have f: "feed (sample_run items) = Inr items" by (simp add: sample_run_def)
  have m: "blogManifest (sample_run items) = Some sample_manifest" by (simp add: sample_run_def)
  have b: "blogList (sample_run items) = Some ''<main><div class=\"article-grid\"></div></main>''"
    by (simp add: sample_run_def)
  have k: "2 = length (newItems plain_env sample_manifest items)"
    unfolding items_def by code_simp
  have l: "lastPostNumber sample_manifest = 5" by (simp add: sample_manifest_def)
  have lo: "- (2 ^ 53) \<le> lastPostNumber sample_manifest" unfolding l by simp
  have hi: "lastPostNumber sample_manifest + int 2 \<le> 2 ^ 53" unfolding l by simp
  have u: "[5 + 1 .. 5 + int 2] = [6, 7]" by code_simp
  from sequence_numbers_consecutive [OF f m b k lo hi] k l u lo hi
  show ?thesis unfolding items_def by auto
qed

text \<open>
  C3 as worded fails once the counter leaves the integers a double tells apart. With the
  counter at \<open>2^53 - 1 = 9007199254740991\<close> and two new items, the first increment
  gives \<open>9007199254740992\<close> and the second, whose exact result \<open>9007199254740993\<close> is
  not a double, gives \<open>9007199254740992\<close> again: the two posts get the same number, the
  second post file is written over the first, and the counter written is not
  \<open>lastPostNumber + 2\<close>.
\<close>

theorem counter_beyond_2_53_repeats:
  "newItems plain_env \<lparr>posts = [], lastPostNumber = 9007199254740991\<rparr>
      [bare_item ''Breath & Calm'' ''https://x.com/breath-calm'',
       bare_item ''Gong Bath'' ''https://x.com/gong-bath'']
     = [bare_item ''Breath & Calm'' ''https://x.com/breath-calm'',
        bare_item ''Gong Bath'' ''https://x.com/gong-bath'']
   \<and> map (\<lambda>m'. (map (\<lambda>p. (number p, postTitle p, fileName p)) (posts m'), lastPostNumber m'))
         (manifestsWritten (fst (main_blog plain_env (counter_edge_run
            [bare_item ''Breath & Calm'' ''https://x.com/breath-calm'',
             bare_item ''Gong Bath'' ''https://x.com/gong-bath'']))))
     = [([(9007199254740992, ''Breath & Calm'', ''post-9007199254740992.html''),
          (9007199254740992, ''Gong Bath'', ''post-9007199254740992.html'')],
         9007199254740992)]
   \<and> map fst (filesWritten (fst (main_blog plain_env (counter_edge_run
            [bare_item ''Breath & Calm'' ''https://x.com/breath-calm'',
             bare_item ''Gong Bath'' ''https://x.com/gong-bath'']))))
     = [''post-9007199254740992.html'', ''post-9007199254740992.html'', ''blog-post.html'']
   \<and> [9007199254740991 + 1 .. 9007199254740991 + int 2]
     = [9007199254740992, 9007199254740993]"
  by code_simp
text \<open>
  C4 (as the code has it). When the URL constructor accepts both links and reports the
  same pathname for them (as it does for links that differ only in their query string),
  or pathnames that differ by one trailing slash behind a pathname that does not itself
  end in a slash, the two links have the same key. If one of them is the \<open>mediumUrl\<close> of
  a manifest post, an item whose link is the other is never among the new items. A link
  the constructor rejects is its own key, unchanged.
\<close>

theorem same_pathname_same_identity:
  assumes p1: "urlPathname E l1 = Some p1" and p2: "urlPathname E l2 = Some p2"
    and rel: "p2 = p1 \<or> (p2 = p1 @ ''/'' \<and> (p1 = [] \<or> last p1 \<noteq> CHR ''/''))"
  shows "pathName E l1 = pathName E l2
    \<and> (\<forall>p \<in> set (posts m). mediumUrl p = l1 \<longrightarrow>
          (\<forall>item. link item = l2 \<longrightarrow> item \<notin> set (newItems E m items)))
    \<and> (\<forall>p \<in> set (posts m). mediumUrl p = l2 \<longrightarrow>
          (\<forall>item. link item = l1 \<longrightarrow> item \<notin> set (newItems E m items)))
    \<and> (\<forall>l. urlPathname E l = None \<longrightarrow> pathName E l = l)"
proof -
  have eq: "pathName E l1 = pathName E l2"
    using p1 p2 rel stripTrailingSlash_snoc [of p1] by (auto simp: pathName_def)
  have a: "\<forall>p \<in> set (posts m). mediumUrl p = l1 \<longrightarrow>
          (\<forall>item. link item = l2 \<longrightarrow> item \<notin> set (newItems E m items))"
    using eq known_by_url by metis
  have b: "\<forall>p \<in> set (posts m). mediumUrl p = l2 \<longrightarrow>
          (\<forall>item. link item = l1 \<longrightarrow> item \<notin> set (newItems E m items))"
    using eq known_by_url by metis
  have c: "\<forall>l. urlPathname E l = None \<longrightarrow> pathName E l = l"
    by (simp add: pathName_def)
  from eq a b c show ?thesis by blast
qed

theorem same_pathname_same_identity_witness:
  "urlPathname plain_env ''https://x.com/first-light'' = Some ''/first-light''
   \<and> urlPathname plain_env ''https://x.com/first-light/?source=rss'' = Some (''/first-light'' @ ''/'')
   \<and> pathName plain_env ''https://x.com/first-light''
       = pathName plain_env ''https://x.com/first-light/?source=rss''
   \<and> bare_item ''Morning'' ''https://x.com/first-light/?source=rss''
       \<notin> set (newItems plain_env sample_manifest
                [bare_item ''Morning'' ''https://x.com/first-light/?source=rss''])"
proof -
  have p1: "urlPathname plain_env ''https://x.com/first-light'' = Some ''/first-light''"
    by code_simp
  have p2: "urlPathname plain_env ''https://x.com/first-light/?source=rss''
      = Some (''/first-light'' @ ''/'')"
    by code_simp
  have rel: "''/first-light'' @ ''/'' = ''/first-light''
      \<or> (''/first-light'' @ ''/'' = ''/first-light'' @ ''/''
          \<and> (''/first-light'' = [] \<or> last ''/first-light'' \<noteq> CHR ''/''))"
    by simp
  have mem: "hd (posts sample_manifest) \<in> set (posts sample_manifest)"
    by (simp add: sample_manifest_def)
  have url: "mediumUrl (hd (posts sample_manifest)) = ''https://x.com/first-light''"
    by (simp add: sample_manifest_def)
  have lnk: "link (bare_item ''Morning'' ''https://x.com/first-light/?source=rss'')
      = ''https://x.com/first-light/?source=rss''"
    by (simp add: bare_item_def)
  note inst = same_pathname_same_identity [OF p1 p2 rel, of sample_manifest
      "[bare_item ''Morning'' ''https://x.com/first-light/?source=rss'']"]
  from inst have eq: "pathName plain_env ''https://x.com/first-light''
       = pathName plain_env ''https://x.com/first-light/?source=rss''"
    by blast
  from inst mem url lnk have known: "bare_item ''Morning'' ''https://x.com/first-light/?source=rss''
       \<notin> set (newItems plain_env sample_manifest
                [bare_item ''Morning'' ''https://x.com/first-light/?source=rss''])"
    by blast
  from p1 p2 eq known show ?thesis by blast
qed

text \<open>
  C4 as worded fails in three ways. Links without a scheme are rejected by the URL
  constructor and compared verbatim, so \<open>x.com/first-light/\<close> is new although
  \<open>x.com/first-light\<close> is in the manifest. Only one slash is stripped, so
  \<open>.../first-light/\<close> and \<open>.../first-light//\<close> have different keys. And two items of one
  fetch whose links differ by a trailing slash, with different titles, are both new and
  both imported although their keys are equal.
\<close>

theorem trailing_slash_not_always_collapsed:
  "newItems plain_env
      \<lparr>posts = [\<lparr>number = 5, postTitle = ''First Light'', mediumUrl = ''x.com/first-light'',
                 fileName = ''post-5.html'', postDate = ''Feb 1, 2026'',
                 postCategory = ''Journal''\<rparr>],
       lastPostNumber = 5\<rparr>
      [bare_item ''Morning'' ''x.com/first-light/'']
     = [bare_item ''Morning'' ''x.com/first-light/'']
   \<and> pathName plain_env ''x.com/first-light'' \<noteq> pathName plain_env ''x.com/first-light/''
   \<and> pathName plain_env ''https://x.com/first-light/'' = ''/first-light''
   \<and> pathName plain_env ''https://x.com/first-light//'' = ''/first-light/''
   \<and> newItems plain_env sample_manifest
        [bare_item ''Breath'' ''https://x.com/breath'',
         bare_item ''Calm'' ''https://x.com/breath/'']
     = [bare_item ''Breath'' ''https://x.com/breath'',
        bare_item ''Calm'' ''https://x.com/breath/'']
   \<and> pathName plain_env ''https://x.com/breath'' = pathName plain_env ''https://x.com/breath/''"
  by code_simp

section \<open>Claims about escaping\<close>

text \<open>
  C5 (as the code has it). escapeHtml replaces every \<open>&\<close>, \<open><\<close>, \<open>>\<close> and double quote
  by its entity and leaves every other character, the single quote included, as it is;
  its result holds no \<open><\<close>, no \<open>>\<close> and no double quote. The summary fragment and the
  standalone page depend on the title, the category, the excerpt and the subtitle only
  through their escaped forms: the fragment is a fixed text around two copies of the
  escaped title, the page a fixed text around three. The image URL, the body markup and
  the date are put into the outputs as they are.
\<close>

theorem text_fields_escaped:
  \<open>escapeHtml s = concat (map escapedForm s)
   \<and> CHR ''<'' \<notin> set (escapeHtml s) \<and> CHR ''>'' \<notin> set (escapeHtml s)
   \<and> CHR ''"'' \<notin> set (escapeHtml s)
   \<and> (\<exists>a b c. \<forall>t. generateCardHtml E n t cat ex rt d img
                      = a @ escapeHtml t @ b @ escapeHtml t @ c)
   \<and> (\<exists>a b. \<forall>cat. generateCardHtml E n t cat ex rt d img = a @ escapeHtml cat @ b)
   \<and> (\<exists>a b. \<forall>ex. generateCardHtml E n t cat ex rt d img = a @ escapeHtml ex @ b)
   \<and> (\<exists>a b c e. \<forall>t. generatePostHtml E t sub cat d rt hero body
                      = a @ escapeHtml t @ b @ escapeHtml t @ c @ escapeHtml t @ e)
   \<and> (\<exists>a b. \<forall>cat. generatePostHtml E t sub cat d rt hero body = a @ escapeHtml cat @ b)
   \<and> (\<exists>a b. \<forall>sub. generatePostHtml E t sub cat d rt hero body = a @ escapeHtml sub @ b)
   \<and> (\<exists>a b. \<forall>img. generateCardHtml E n t cat ex rt d img = a @ img @ b)
   \<and> (\<exists>a b. \<forall>hero. generatePostHtml E t sub cat d rt hero body = a @ hero @ b)
   \<and> (\<exists>a b. \<forall>body. generatePostHtml E t sub cat d rt hero body = a @ body @ b)
   \<and> (\<exists>a b. \<forall>d. generateCardHtml E n t cat ex rt d img = a @ d @ b)
   \<and> (\<exists>a b. \<forall>d. generatePostHtml E t sub cat d rt hero body = a @ d @ b)\<close>
  using escapeHtml_concat [of s] escapeHtml_chars [of s]
    card_title_holes [of E n cat ex rt d img] card_category_hole [of E n t ex rt d img]
    card_excerpt_hole [of E n t cat rt d img] post_title_holes [of E sub cat d rt hero body]
    post_category_hole [of E t sub d rt hero body] post_subtitle_hole [of E t cat d rt hero body]
    card_image_hole [of E n t cat ex rt d] post_image_hole [of E t sub cat d rt body]
    post_body_hole [of E t sub cat d rt hero] card_date_hole [of E n t cat ex rt img]
    post_date_hole [of E t sub cat rt hero body]
  by (intro conjI) blast+

theorem text_fields_escaped_witness:
  \<open>escapeHtml ''Breath & Calm <"now">'' = ''Breath &amp; Calm &lt;&quot;now&quot;&gt;''
   \<and> CHR ''<'' \<notin> set (escapeHtml ''Breath & Calm <"now">'')\<close>
proof -
  note inst = text_fields_escaped [of \<open>''Breath & Calm <"now">''\<close>]
  from inst have \<open>escapeHtml ''Breath & Calm <"now">''
      = concat (map escapedForm ''Breath & Calm <"now">'')\<close>
    by blast
  then have a: \<open>escapeHtml ''Breath & Calm <"now">''
      = ''Breath &amp; Calm &lt;&quot;now&quot;&gt;''\<close>
    by (simp add: escapedForm_def)
  from inst have b: \<open>CHR ''<'' \<notin> set (escapeHtml ''Breath & Calm <"now">'')\<close>
    by blast
  from a b show ?thesis by blast
qed

text \<open>
  C5 as worded fails for the image URL. \<open>cardImage\<close> and \<open>heroImage\<close> are the \<open>src\<close> value
  of the first image of the item's body, copied by extractCardImage and extractHeroImage;
  an ampersand in it reaches the \<open>src\<close> attribute of both outputs unescaped.
\<close>

theorem image_url_not_escaped:
  \<open>sublist ''<img class="card-img" src="https://img.example.com/a.png?w=700&h=400" alt="Breath">''
      (generateCardHtml plain_env 6 ''Breath'' ''Journal'' ''Slow down.'' 2 ''Feb 15, 2026''
         ''https://img.example.com/a.png?w=700&h=400'')
   \<and> sublist ''<img src="https://img.example.com/a.png?w=1400&h=800" alt="Breath">''
      (generatePostHtml plain_env ''Breath'' ''Slow down.'' ''Journal'' ''Feb 15, 2026'' 2
         ''https://img.example.com/a.png?w=1400&h=800'' ''<p>Slow down.</p>'')
   \<and> escapeHtml ''https://img.example.com/a.png?w=700&h=400''
       = ''https://img.example.com/a.png?w=700&amp;h=400''\<close>
  by code_simp

section \<open>Claims about missing markers\<close>

text \<open>
  C6 (as the code has it). replaceSection returns \<open>None\<close> exactly when the begin marker
  or the end marker does not occur in the text: the model is a total function, so nothing
  is thrown, and a result is produced only when both markers are found. The caller skips
  one section, not one document. In a run of \<open>main\<close> that got past the two fetches: when
  index.html lacks a homepage marker, index.html is not written and the warning is
  printed; when the text handed to the upcoming (past) splice of events.html lacks one of
  its markers, the warning is printed and events.html is written exactly when the other
  splice succeeds, with the result of that splice alone, so the section whose markers are
  missing is left as it was and the other section is replaced all the same; index.html
  is written exactly when its own splice succeeds, whatever happened to events.html; in
  every case the run goes on, writes the manifest once, with the fetched upcoming
  events, and exits with 0.
\<close>

theorem missing_markers_skip_update:
  assumes cfg: "configured inp"
    and up: "upcomingFetch inp = Inr ups"
    and pa: "pastFetch inp = Inr ps"
  shows
   "(replaceSection html b e c = None \<longleftrightarrow> \<not> sublist b html \<or> \<not> sublist e html)
    \<and> (\<forall>h. indexPage inp = Some h
            \<and> (\<not> sublist ''<!-- HOMEPAGE-EVENTS-START -->'' h
                 \<or> \<not> sublist ''<!-- HOMEPAGE-EVENTS-END -->'' h)
          \<longrightarrow> (\<forall>w. (INDEX_PATH, w) \<notin> set (filesWritten (fst (main_events R inp))))
              \<and> ''  Warning: Could not find HOMEPAGE-EVENTS markers in index.html. Skipping homepage update.''
                  \<in> set (warnings (fst (main_events R inp))))
    \<and> (\<forall>h. eventsPage inp = Some h
            \<and> (\<not> sublist ''<!-- EVENTS-UPCOMING-START -->'' h
                 \<or> \<not> sublist ''<!-- EVENTS-UPCOMING-END -->'' h)
          \<longrightarrow> ''  Warning: Could not find EVENTS-UPCOMING markers in events.html. Skipping upcoming section.''
                  \<in> set (warnings (fst (main_events R inp)))
              \<and> (\<forall>w. (EVENTS_PAGE_PATH, w) \<in> set (filesWritten (fst (main_events R inp)))
                     \<longleftrightarrow> replaceSection h ''<!-- EVENTS-PAST-START -->''
                            ''<!-- EVENTS-PAST-END -->'' (pastContent R (take 12 ps)) = Some w))
    \<and> (\<forall>h cur. eventsPage inp = Some h
            \<and> cur = (case replaceSection h ''<!-- EVENTS-UPCOMING-START -->''
                             ''<!-- EVENTS-UPCOMING-END -->'' (upcomingContent R ups) of
                        Some u \<Rightarrow> u | None \<Rightarrow> h)
            \<and> (\<not> sublist ''<!-- EVENTS-PAST-START -->'' cur
                 \<or> \<not> sublist ''<!-- EVENTS-PAST-END -->'' cur)
          \<longrightarrow> ''  Warning: Could not find EVENTS-PAST markers in events.html. Skipping past section.''
                  \<in> set (warnings (fst (main_events R inp)))
              \<and> (\<forall>w. (EVENTS_PAGE_PATH, w) \<in> set (filesWritten (fst (main_events R inp)))
                     \<longleftrightarrow> replaceSection h ''<!-- EVENTS-UPCOMING-START -->''
                            ''<!-- EVENTS-UPCOMING-END -->'' (upcomingContent R ups) = Some w))
    \<and> (\<forall>h w. indexPage inp = Some h
          \<longrightarrow> ((INDEX_PATH, w) \<in> set (filesWritten (fst (main_events R inp)))
                \<longleftrightarrow> replaceSection h ''<!-- HOMEPAGE-EVENTS-START -->''
                       ''<!-- HOMEPAGE-EVENTS-END -->'' (homepageContent R ups) = Some w))
    \<and> length (manifestsWritten (fst (main_events R inp))) = 1
    \<and> map upcoming (manifestsWritten (fst (main_events R inp)))
        = [map (extractEventData R) ups]
    \<and> snd (main_events R inp) = 0"
proof (intro conjI allI impI)
  show "replaceSection html b e c = None \<longleftrightarrow> \<not> sublist b html \<or> \<not> sublist e html"
    by (rule replaceSection_None_iff)
next
  show "length (manifestsWritten (fst (main_events R inp))) = 1"
    by (simp add: main_events_manifests [OF cfg up pa])
next
  show "map upcoming (manifestsWritten (fst (main_events R inp)))
      = [map (extractEventData R) ups]"
    by (simp add: main_events_manifests [OF cfg up pa])
next
  show "snd (main_events R inp) = 0"
    by (rule main_events_exit [OF cfg up pa])
next
  fix h w
  assume a: "indexPage inp = Some h
      \<and> (\<not> sublist ''<!-- HOMEPAGE-EVENTS-START -->'' h
           \<or> \<not> sublist ''<!-- HOMEPAGE-EVENTS-END -->'' h)"
  then have none: "replaceSection h ''<!-- HOMEPAGE-EVENTS-START -->''
      ''<!-- HOMEPAGE-EVENTS-END -->'' (homepageContent R ups) = None"
    by (simp add: replaceSection_None_iff)
  from a none show "(INDEX_PATH, w) \<notin> set (filesWritten (fst (main_events R inp)))"
    by (simp add: main_events_index_written [OF cfg up pa] updateIndexPage_written)
  from a none show "''  Warning: Could not find HOMEPAGE-EVENTS markers in index.html. Skipping homepage update.''
      \<in> set (warnings (fst (main_events R inp)))"
    by (simp add: main_events_warnings [OF cfg up pa] updateIndexPage_warnings)
next
  fix h
  assume a: "eventsPage inp = Some h
      \<and> (\<not> sublist ''<!-- EVENTS-UPCOMING-START -->'' h
           \<or> \<not> sublist ''<!-- EVENTS-UPCOMING-END -->'' h)"
  then have none: "replaceSection h ''<!-- EVENTS-UPCOMING-START -->''
      ''<!-- EVENTS-UPCOMING-END -->'' (upcomingContent R ups) = None"
    by (simp add: replaceSection_None_iff)
  from a none show "''  Warning: Could not find EVENTS-UPCOMING markers in events.html. Skipping upcoming section.''
      \<in> set (warnings (fst (main_events R inp)))"
    by (simp add: main_events_warnings [OF cfg up pa] updateEventsPage_warnings)
  fix w
  from a none show "(EVENTS_PAGE_PATH, w) \<in> set (filesWritten (fst (main_events R inp)))
      \<longleftrightarrow> replaceSection h ''<!-- EVENTS-PAST-START -->''
            ''<!-- EVENTS-PAST-END -->'' (pastContent R (take 12 ps)) = Some w"
    by (auto simp add: main_events_events_written [OF cfg up pa] updateEventsPage_written
          split: option.splits)
next
  fix h cur
  assume a: "eventsPage inp = Some h
      \<and> cur = (case replaceSection h ''<!-- EVENTS-UPCOMING-START -->''
                       ''<!-- EVENTS-UPCOMING-END -->'' (upcomingContent R ups) of
                  Some u \<Rightarrow> u | None \<Rightarrow> h)
      \<and> (\<not> sublist ''<!-- EVENTS-PAST-START -->'' cur
           \<or> \<not> sublist ''<!-- EVENTS-PAST-END -->'' cur)"
  then have none: "replaceSection cur ''<!-- EVENTS-PAST-START -->''
      ''<!-- EVENTS-PAST-END -->'' (pastContent R (take 12 ps)) = None"
    unfolding replaceSection_None_iff by blast
  from a none show "''  Warning: Could not find EVENTS-PAST markers in events.html. Skipping past section.''
      \<in> set (warnings (fst (main_events R inp)))"
    by (auto simp add: main_events_warnings [OF cfg up pa] updateEventsPage_warnings
          split: option.splits)
  fix w
  from a none show "(EVENTS_PAGE_PATH, w) \<in> set (filesWritten (fst (main_events R inp)))
      \<longleftrightarrow> replaceSection h ''<!-- EVENTS-UPCOMING-START -->''
            ''<!-- EVENTS-UPCOMING-END -->'' (upcomingContent R ups) = Some w"
    by (simp add: main_events_events_written [OF cfg up pa] updateEventsPage_written)
next
  fix h w
  assume "indexPage inp = Some h"
  then show "(INDEX_PATH, w) \<in> set (filesWritten (fst (main_events R inp)))
      \<longleftrightarrow> replaceSection h ''<!-- HOMEPAGE-EVENTS-START -->''
            ''<!-- HOMEPAGE-EVENTS-END -->'' (homepageContent R ups) = Some w"
    by (simp add: main_events_index_written [OF cfg up pa] updateIndexPage_written)
qed

theorem missing_markers_skip_update_witness:
  "configured (first_run (Some past_only_page) (Some ''<main></main>'')
       [''gong bath''] [''sound bath''])
   \<and> \<not> sublist ''<!-- EVENTS-UPCOMING-START -->'' past_only_page
   \<and> \<not> sublist ''<!-- HOMEPAGE-EVENTS-START -->'' ''<main></main>''
   \<and> replaceSection past_only_page ''<!-- EVENTS-UPCOMING-START -->''
         ''<!-- EVENTS-UPCOMING-END -->'' ''cards'' = None
   \<and> ''  Warning: Could not find EVENTS-UPCOMING markers in events.html. Skipping upcoming section.''
       \<in> set (warnings (fst (main_events plain_renderers
         (first_run (Some past_only_page) (Some ''<main></main>'')
            [''gong bath''] [''sound bath'']))))
   \<and> (EVENTS_PAGE_PATH,
        ''<h2>Past</h2><!-- EVENTS-PAST-START -->'' @ [newline] @ ''sound bath'' @ [newline]
          @ ''<!-- EVENTS-PAST-END -->'')
       \<in> set (filesWritten (fst (main_events plain_renderers
         (first_run (Some past_only_page) (Some ''<main></main>'')
            [''gong bath''] [''sound bath'']))))
   \<and> (\<forall>w. (INDEX_PATH, w) \<notin> set (filesWritten (fst (main_events plain_renderers
         (first_run (Some past_only_page) (Some ''<main></main>'')
            [''gong bath''] [''sound bath''])))))
   \<and> ''  Warning: Could not find HOMEPAGE-EVENTS markers in index.html. Skipping homepage update.''
       \<in> set (warnings (fst (main_events plain_renderers
         (first_run (Some past_only_page) (Some ''<main></main>'')
            [''gong bath''] [''sound bath'']))))
   \<and> length (manifestsWritten (fst (main_events plain_renderers
         (first_run (Some past_only_page) (Some ''<main></main>'')
            [''gong bath''] [''sound bath''])))) = 1"
proof -
  define inp where "inp = first_run (Some past_only_page) (Some ''<main></main>'')
      [''gong bath''] [''sound bath'']"
  define R where "R = plain_renderers"
  have cfg: "configured inp" by (simp add: inp_def first_run_def)
  have up: "upcomingFetch inp = Inr [''gong bath'']" by (simp add: inp_def first_run_def)
  have pa: "pastFetch inp = Inr [''sound bath'']" by (simp add: inp_def first_run_def)
  have ip: "indexPage inp = Some ''<main></main>''" by (simp add: inp_def first_run_def)
  have ep: "eventsPage inp = Some past_only_page" by (simp add: inp_def first_run_def)
  have h: "\<not> sublist ''<!-- HOMEPAGE-EVENTS-START -->'' ''<main></main>''"
    by code_simp
  have u: "\<not> sublist ''<!-- EVENTS-UPCOMING-START -->'' past_only_page"
    by code_simp
  have s: "replaceSection past_only_page ''<!-- EVENTS-PAST-START -->''
      ''<!-- EVENTS-PAST-END -->'' (pastContent R (take 12 [''sound bath'']))
    = Some (''<h2>Past</h2><!-- EVENTS-PAST-START -->'' @ [newline] @ ''sound bath''
            @ [newline] @ ''<!-- EVENTS-PAST-END -->'')"
    unfolding R_def by code_simp
  note inst = missing_markers_skip_update [OF cfg up pa,
      of past_only_page "''<!-- EVENTS-UPCOMING-START -->''" "''<!-- EVENTS-UPCOMING-END -->''"
         "''cards''" R]
  from inst u have r: "replaceSection past_only_page ''<!-- EVENTS-UPCOMING-START -->''
         ''<!-- EVENTS-UPCOMING-END -->'' ''cards'' = None"
    by blast
  from inst ep u have w1: "''  Warning: Could not find EVENTS-UPCOMING markers in events.html. Skipping upcoming section.''
       \<in> set (warnings (fst (main_events R inp)))"
    by blast
  from inst ep u have "\<forall>w. (EVENTS_PAGE_PATH, w) \<in> set (filesWritten (fst (main_events R inp)))
      \<longleftrightarrow> replaceSection past_only_page ''<!-- EVENTS-PAST-START -->''
              ''<!-- EVENTS-PAST-END -->'' (pastContent R (take 12 [''sound bath''])) = Some w"
    by blast
  with s have e1: "(EVENTS_PAGE_PATH,
        ''<h2>Past</h2><!-- EVENTS-PAST-START -->'' @ [newline] @ ''sound bath'' @ [newline]
          @ ''<!-- EVENTS-PAST-END -->'')
       \<in> set (filesWritten (fst (main_events R inp)))"
    by blast
  from inst ip h have i1: "\<forall>w. (INDEX_PATH, w) \<notin> set (filesWritten (fst (main_events R inp)))"
    by blast
  from inst ip h have i2: "''  Warning: Could not find HOMEPAGE-EVENTS markers in index.html. Skipping homepage update.''
       \<in> set (warnings (fst (main_events R inp)))"
    by blast
  from inst have m: "length (manifestsWritten (fst (main_events R inp))) = 1"
    by blast
  from cfg h u r w1 e1 i1 i2 m show ?thesis
    unfolding inp_def R_def by blast
qed

text \<open>
  C6 as worded fails for events.html: the page below has the past markers but no upcoming
  markers; the upcoming splice returns \<open>None\<close> and its warning is printed, and still the
  document is written, with its past section replaced.
\<close>

theorem document_with_one_marker_pair_written:
  "replaceSection ''<h2>Past</h2><!-- EVENTS-PAST-START --><!-- EVENTS-PAST-END -->''
       ''<!-- EVENTS-UPCOMING-START -->'' ''<!-- EVENTS-UPCOMING-END -->''
       (upcomingContent plain_renderers [''gong bath'']) = None
   \<and> warnings (fst (main_events plain_renderers
         (first_run (Some ''<h2>Past</h2><!-- EVENTS-PAST-START --><!-- EVENTS-PAST-END -->'')
            None [''gong bath''] [''sound bath''])))
       = [''  Warning: Could not find EVENTS-UPCOMING markers in events.html. Skipping upcoming section.'',
          ''  Warning: index.html not found. Skipping homepage update.'']
   \<and> filesWritten (fst (main_events plain_renderers
         (first_run (Some ''<h2>Past</h2><!-- EVENTS-PAST-START --><!-- EVENTS-PAST-END -->'')
            None [''gong bath''] [''sound bath''])))
       = [(''events.html'',
           ''<h2>Past</h2><!-- EVENTS-PAST-START -->'' @ [newline] @ ''sound bath'' @ [newline]
           @ ''<!-- EVENTS-PAST-END -->'')]"
  by code_simp

section \<open>Claims about runs that change nothing\<close>

text \<open>
  C7 (as the code has it). sync-medium: a run that finds no new item returns before any
  write; it writes no file and no manifest and ends with exit code 0. sync-events has no
  such early return: a run that gets past its two fetches always writes the manifest, with
  \<open>lastSync\<close> set to the current time and both event lists replaced by the fetched ones,
  and it writes index.html whenever the homepage markers are found and events.html
  whenever the upcoming markers are found, whether or not any event changed.
\<close>

theorem writes_without_changes:
  "(feed binp = Inr items \<and> blogManifest binp = Some m \<and> newItems E m items = []
      \<longrightarrow> filesWritten (fst (main_blog E binp)) = []
          \<and> manifestsWritten (fst (main_blog E binp)) = []
          \<and> snd (main_blog E binp) = 0)
   \<and> (configured einp \<and> upcomingFetch einp = Inr ups \<and> pastFetch einp = Inr ps
      \<longrightarrow> (\<exists>old. manifestsWritten (fst (main_events R einp))
                   = [old\<lparr>lastSync := Some (now einp),
                          upcoming := map (extractEventData R) ups,
                          past := map (extractEventData R) (take 12 ps)\<rparr>])
          \<and> (\<forall>h u. indexPage einp = Some h
                 \<and> replaceSection h ''<!-- HOMEPAGE-EVENTS-START -->''
                      ''<!-- HOMEPAGE-EVENTS-END -->'' (homepageContent R ups) = Some u
               \<longrightarrow> (INDEX_PATH, u) \<in> set (filesWritten (fst (main_events R einp))))
          \<and> (\<forall>h u. eventsPage einp = Some h
                 \<and> replaceSection h ''<!-- EVENTS-UPCOMING-START -->''
                      ''<!-- EVENTS-UPCOMING-END -->'' (upcomingContent R ups) = Some u
               \<longrightarrow> (\<exists>w. (EVENTS_PAGE_PATH, w) \<in> set (filesWritten (fst (main_events R einp))))))"
proof (intro conjI impI allI)
  assume a: "feed binp = Inr items \<and> blogManifest binp = Some m \<and> newItems E m items = []"
  then have run: "main_blog E binp
       = ([Log ''Fetching Medium RSS feed...'',
           Log (''Found '' @ digits (length items) @ '' items in RSS feed.''),
           Log ''No new posts found. Everything is up to date.''], 0)"
    by (simp add: main_blog_nothing_new)
  show "filesWritten (fst (main_blog E binp)) = []" by (simp add: run)
  show "manifestsWritten (fst (main_blog E binp)) = []" by (simp add: run)
  show "snd (main_blog E binp) = 0" by (simp add: run)
next
  assume a: "configured einp \<and> upcomingFetch einp = Inr ups \<and> pastFetch einp = Inr ps"
  then show "\<exists>old. manifestsWritten (fst (main_events R einp))
                   = [old\<lparr>lastSync := Some (now einp),
                          upcoming := map (extractEventData R) ups,
                          past := map (extractEventData R) (take 12 ps)\<rparr>]"
    using main_events_manifests [of einp ups ps R] by blast
next
  fix h u
  assume "configured einp \<and> upcomingFetch einp = Inr ups \<and> pastFetch einp = Inr ps"
    and "indexPage einp = Some h
                 \<and> replaceSection h ''<!-- HOMEPAGE-EVENTS-START -->''
                      ''<!-- HOMEPAGE-EVENTS-END -->'' (homepageContent R ups) = Some u"
  then show "(INDEX_PATH, u) \<in> set (filesWritten (fst (main_events R einp)))"
    using main_events_files_index by blast
next
  fix h u
  assume "configured einp \<and> upcomingFetch einp = Inr ups \<and> pastFetch einp = Inr ps"
    and "eventsPage einp = Some h
                 \<and> replaceSection h ''<!-- EVENTS-UPCOMING-START -->''
                      ''<!-- EVENTS-UPCOMING-END -->'' (upcomingContent R ups) = Some u"
  then show "\<exists>w. (EVENTS_PAGE_PATH, w) \<in> set (filesWritten (fst (main_events R einp)))"
    using main_events_files_events by blast
qed

theorem writes_without_changes_witness:
  "newItems plain_env sample_manifest [bare_item ''first light'' ''https://x.com/other''] = []
   \<and> filesWritten (fst (main_blog plain_env
         (sample_run [bare_item ''first light'' ''https://x.com/other'']))) = []
   \<and> manifestsWritten (fst (main_blog plain_env
         (sample_run [bare_item ''first light'' ''https://x.com/other'']))) = []
   \<and> configured unchanged_run
   \<and> (\<exists>old. manifestsWritten (fst (main_events plain_renderers unchanged_run))
          = [old\<lparr>lastSync := Some (now unchanged_run), upcoming := [], past := []\<rparr>])
   \<and> (\<exists>u. (INDEX_PATH, u) \<in> set (filesWritten (fst (main_events plain_renderers unchanged_run))))"
proof -
  define items where "items = [bare_item ''first light'' ''https://x.com/other'']"
  have f: "feed (sample_run items) = Inr items" by (simp add: sample_run_def)
  have m: "blogManifest (sample_run items) = Some sample_manifest" by (simp add: sample_run_def)
  have n: "newItems plain_env sample_manifest items = []" unfolding items_def by code_simp
  have c: "configured unchanged_run" by (simp add: unchanged_run_def first_run_def)
  have u: "upcomingFetch unchanged_run = Inr []" by (simp add: unchanged_run_def first_run_def)
  have p: "pastFetch unchanged_run = Inr []" by (simp add: unchanged_run_def first_run_def)
  have i: "indexPage unchanged_run = Some synced_index_page"
    by (simp add: unchanged_run_def first_run_def)
  have "indexOf synced_index_page ''<!-- HOMEPAGE-EVENTS-START -->'' \<noteq> None"
    by code_simp
  moreover have "indexOf synced_index_page ''<!-- HOMEPAGE-EVENTS-END -->'' \<noteq> None"
    by code_simp
  ultimately have "replaceSection synced_index_page
      ''<!-- HOMEPAGE-EVENTS-START -->'' ''<!-- HOMEPAGE-EVENTS-END -->''
      (homepageContent plain_renderers []) \<noteq> None"
    unfolding replaceSection_None_iff indexOf_None_iff [symmetric] by simp
  then obtain w where r: "replaceSection synced_index_page
      ''<!-- HOMEPAGE-EVENTS-START -->'' ''<!-- HOMEPAGE-EVENTS-END -->''
      (homepageContent plain_renderers []) = Some w"
    by blast
  note inst = writes_without_changes [of "sample_run items" items sample_manifest plain_env
      unchanged_run "[]" "[]" plain_renderers]
  from inst f m n have b1: "filesWritten (fst (main_blog plain_env (sample_run items))) = []"
    by blast
  from inst f m n have b2: "manifestsWritten (fst (main_blog plain_env (sample_run items))) = []"
    by blast
  from inst c u p have e1: "\<exists>old. manifestsWritten (fst (main_events plain_renderers unchanged_run))
          = [old\<lparr>lastSync := Some (now unchanged_run),
                 upcoming := map (extractEventData plain_renderers) [],
                 past := map (extractEventData plain_renderers) (take 12 [])\<rparr>]"
    by blast
  from inst c u p i r have e2: "(INDEX_PATH, w)
      \<in> set (filesWritten (fst (main_events plain_renderers unchanged_run)))"
    by blast
  from n b1 b2 c e1 e2 show ?thesis unfolding items_def by auto
qed

text \<open>
  C7 as worded fails for sync-events: on a run where the fetched events equal those of the
  manifest on disk (the run prints \<open>EVENTS_CHANGED=false\<close>), the manifest is written
  again with a new \<open>lastSync\<close>, and index.html is written again, with the text it
  already had.
\<close>

theorem unchanged_events_run_writes:
  "Log ''EVENTS_CHANGED=false'' \<in> set (fst (main_events plain_renderers unchanged_run))
   \<and> manifestsWritten (fst (main_events plain_renderers unchanged_run))
       = [\<lparr>lastSync = Some ''2026-02-15T19:00:00.000Z'', upcoming = [], past = []\<rparr>]
   \<and> filesWritten (fst (main_events plain_renderers unchanged_run))
       = [(''index.html'', synced_index_page)]"
  by code_simp

section \<open>Claims about incomplete items\<close>

text \<open>
  C8 (as the code has it). extractItems gives the empty string for a tag that does not
  occur in the item's block, the empty string for a missing \<open>content:encoded\<close> and no
  categories when the block has no \<open>category\<close> tag; it drops no item. main has no check
  for missing fields either. An item whose title and
  link are both empty is classified like any other: when the URL constructor rejects the
  empty string and the manifest holds neither a post with an empty title nor a post whose
  URL key is empty, the item is new; the run then writes a manifest that holds the item's
  entry under one of the numbers the loop hands out (a number above the counter, as
  long as the counter stays an integer between \<open>-2^53\<close> and \<open>2^53\<close>), prints no warning about it (the only warning a run can
  print is the one about the missing card grid) and ends with exit code 0. An item
  without categories gets the category \<open>Journal\<close>.
\<close>

theorem empty_item_not_skipped:
  assumes f: "feed inp = Inr items" and m: "blogManifest inp = Some m"
    and b: "blogList inp = Some html"
    and reject: "urlPathname E [] = None"
    and item: "item \<in> set items" "title item = []" "link item = []"
    and absent: "[] \<notin> existingTitles m" "[] \<notin> existingUrls E m"
  shows "item \<in> set (newItems E m items)
     \<and> (\<exists>m' n. manifestsWritten (fst (main_blog E inp)) = [m']
            \<and> n \<in> set (numbersFrom (lastPostNumber m) (length (newItems E m items)))
            \<and> (- (2 ^ 53) \<le> lastPostNumber m
                  \<and> lastPostNumber m + int (length (newItems E m items)) \<le> 2 ^ 53
                \<longrightarrow> lastPostNumber m < n)
            \<and> manifestEntry E n item \<in> set (drop (length (posts m)) (posts m')))
     \<and> set (warnings (fst (main_blog E inp)))
         \<subseteq> {''  Warning: Could not find article-grid in blog-post.html. Cards not inserted.''}
     \<and> snd (main_blog E inp) = 0
     \<and> pickCategory tc [] = ''Journal''
     \<and> (\<not> sublist (''<'' @ tag) block \<longrightarrow> get decode block tag = [])
     \<and> (\<not> sublist ''<content:encoded><![CDATA['' block \<longrightarrow> contentOf block = [])
     \<and> (\<not> sublist ''<category>'' block \<longrightarrow> categoriesOf block = [])"
proof -
  have key: "pathName E [] = []" using reject by (simp add: pathName_def)
  have new: "item \<in> set (newItems E m items)"
    using item absent key by (simp add: newItems_def toLowerCase_def)
  then have ne: "newItems E m items \<noteq> []" by auto
  let ?k = "length (newItems E m items)"
  define new_posts where "new_posts = map (\<lambda>(n, item). manifestEntry E n item)
      (zip (numbersFrom (lastPostNumber m) ?k) (newItems E m items))"
  define m' where "m' = \<lparr>posts = posts m @ new_posts,
      lastPostNumber = (jsIncrement ^^ ?k) (lastPostNumber m)\<rparr>"
  have w: "manifestsWritten (fst (main_blog E inp)) = [m']"
    using main_blog_manifests [OF f m b, of E] ne by (simp add: m'_def new_posts_def)
  have "\<exists>n \<in> set (numbersFrom (lastPostNumber m) ?k).
      manifestEntry E n item \<in> set new_posts"
    unfolding new_posts_def by (rule entry_of_new_item [OF new]) simp
  then obtain n where n: "n \<in> set (numbersFrom (lastPostNumber m) ?k)"
      "manifestEntry E n item \<in> set new_posts"
    by blast
  have above: "lastPostNumber m < n"
    if "- (2 ^ 53) \<le> lastPostNumber m \<and> lastPostNumber m + int ?k \<le> 2 ^ 53"
    using n(1) that by (simp add: numbersFrom_exact)
  have "drop (length (posts m)) (posts m') = new_posts" by (simp add: m'_def)
  with w n above have ex: "\<exists>m' n. manifestsWritten (fst (main_blog E inp)) = [m']
            \<and> n \<in> set (numbersFrom (lastPostNumber m) ?k)
            \<and> (- (2 ^ 53) \<le> lastPostNumber m \<and> lastPostNumber m + int ?k \<le> 2 ^ 53
                \<longrightarrow> lastPostNumber m < n)
            \<and> manifestEntry E n item \<in> set (drop (length (posts m)) (posts m'))"
    by auto
  have j: "pickCategory tc [] = ''Journal''" by (simp add: pickCategory_def)
  from new ex main_blog_warnings [OF f m b] main_blog_exit [OF f m b] j
    get_absent [of tag block decode] contentOf_absent [of block] categoriesOf_absent [of block]
  show ?thesis by blast
qed

theorem empty_item_not_skipped_witness:
  "urlPathname plain_env [] = None
   \<and> [] \<notin> existingTitles sample_manifest
   \<and> [] \<notin> existingUrls plain_env sample_manifest
   \<and> bare_item [] [] \<in> set (newItems plain_env sample_manifest
         [bare_item [] [], bare_item ''Gong Bath'' ''https://x.com/gong-bath''])
   \<and> (\<exists>m' n. manifestsWritten (fst (main_blog plain_env (sample_run
                 [bare_item [] [], bare_item ''Gong Bath'' ''https://x.com/gong-bath''])))
               = [m']
          \<and> lastPostNumber sample_manifest < n
          \<and> manifestEntry plain_env n (bare_item [] [])
              \<in> set (drop (length (posts sample_manifest)) (posts m')))
   \<and> snd (main_blog plain_env (sample_run
         [bare_item [] [], bare_item ''Gong Bath'' ''https://x.com/gong-bath''])) = 0"
proof -
  define items where
    "items = [bare_item [] [], bare_item ''Gong Bath'' ''https://x.com/gong-bath'']"
  have f: "feed (sample_run items) = Inr items" by (simp add: sample_run_def)
  have m: "blogManifest (sample_run items) = Some sample_manifest" by (simp add: sample_run_def)
  have b: "blogList (sample_run items) = Some ''<main><div class=\"article-grid\"></div></main>''"
    by (simp add: sample_run_def)
  have r: "urlPathname plain_env [] = None" by code_simp
  have i: "bare_item [] [] \<in> set items" by (simp add: items_def)
  have t: "title (bare_item [] []) = []" by (simp add: bare_item_def)
  have l: "link (bare_item [] []) = []" by (simp add: bare_item_def)
  have a1: "[] \<notin> existingTitles sample_manifest" by code_simp
  have a2: "[] \<notin> existingUrls plain_env sample_manifest" by code_simp
  have k: "length (newItems plain_env sample_manifest items) = 2"
    unfolding items_def by code_simp
  have lo: "- (2 ^ 53) \<le> lastPostNumber sample_manifest"
    by (simp add: sample_manifest_def)
  have hi: "lastPostNumber sample_manifest
      + int (length (newItems plain_env sample_manifest items)) \<le> 2 ^ 53"
    unfolding k by (simp add: sample_manifest_def)
  from empty_item_not_skipped [OF f m b r i t l a1 a2] r a1 a2 lo hi
  show ?thesis unfolding items_def by blast
qed

text \<open>
  C8 as worded fails: for the item \<open><item></item>\<close> of a feed, extractItems returns
  an item with an empty title and an empty link; it is not skipped but imported as post
  6, with the file post-6.html, and no warning is printed.
\<close>

theorem empty_item_imported:
  "extractItems (decodeHtmlEntities plain_env)
      ''<rss><channel><item></item><item><title>Gong Bath</title><link>https://x.com/gong-bath</link></item></channel></rss>''
     = [bare_item [] [], bare_item ''Gong Bath'' ''https://x.com/gong-bath'']
   \<and> newItems plain_env sample_manifest
      [bare_item [] [], bare_item ''Gong Bath'' ''https://x.com/gong-bath'']
     = [bare_item [] [], bare_item ''Gong Bath'' ''https://x.com/gong-bath'']
   \<and> map (\<lambda>p. (number p, postTitle p, mediumUrl p, fileName p))
         (concat (map posts (manifestsWritten (fst (main_blog plain_env (sample_run
            [bare_item [] [], bare_item ''Gong Bath'' ''https://x.com/gong-bath''])))))) 
     = [(5, ''First Light'', ''https://x.com/first-light'', ''post-5.html''),
        (6, [], [], ''post-6.html''),
        (7, ''Gong Bath'', ''https://x.com/gong-bath'', ''post-7.html'')]
   \<and> warnings (fst (main_blog plain_env (sample_run
         [bare_item [] [], bare_item ''Gong Bath'' ''https://x.com/gong-bath'']))) = []"
  by code_simp

section \<open>Claims about excerpts\<close>

text \<open>
  C9 (as the code has it). \<open>cleanText\<close> is the plain text truncateText works on: tags
  stripped, every run of white space collapsed to one space, trimmed. When it fits the
  budget it is returned as it is. When it is longer and its first \<open>maxLen\<close> characters
  hold a space, the result is the text before the last such space, followed by three
  dots: the cut is at a word boundary. When they hold no space, the result is the first
  \<open>maxLen\<close> characters followed by three dots. extractExcerpt cuts a paragraph longer
  than 160 characters at exactly 157 characters, followed by three dots.
\<close>

theorem truncation_behaviour:
  "(text \<noteq> [] \<and> length (cleanText text) \<le> maxLen
      \<longrightarrow> truncateText text maxLen = cleanText text)
   \<and> (text \<noteq> [] \<and> maxLen < length (cleanText text)
        \<and> CHR '' '' \<in> set (take maxLen (cleanText text))
      \<longrightarrow> (\<exists>k. 0 < k \<and> k < maxLen \<and> cleanText text ! k = CHR '' ''
               \<and> CHR '' '' \<notin> set (drop (Suc k) (take maxLen (cleanText text)))
               \<and> truncateText text maxLen = take k (cleanText text) @ ''...''))
   \<and> (text \<noteq> [] \<and> maxLen < length (cleanText text)
        \<and> CHR '' '' \<notin> set (take maxLen (cleanText text))
      \<longrightarrow> truncateText text maxLen = take maxLen (cleanText text) @ ''...'')
   \<and> (\<forall>c \<in> set (cleanText text). isSpace c \<longrightarrow> c = CHR '' '')
   \<and> (firstParagraph html = Some inner \<and> 160 < length (trim (decode (stripTags inner)))
      \<longrightarrow> extractExcerpt decode html = take 157 (trim (decode (stripTags inner))) @ ''...'')"
  using truncateText_short [of "text" maxLen] truncateText_at_space [of "text" maxLen]
    truncateText_no_space [of "text" maxLen] cleanText_spaces [of _ "text"]
    extractExcerpt_long [of html inner decode]
  by (intro conjI) blast+

theorem truncation_behaviour_witness:
  "cleanText ''<p>Hello   <b>big</b> world  </p> and more'' = ''Hello big world and more''
   \<and> (\<exists>k. 0 < k \<and> k < 12
          \<and> cleanText ''<p>Hello   <b>big</b> world  </p> and more'' ! k = CHR '' ''
          \<and> truncateText ''<p>Hello   <b>big</b> world  </p> and more'' 12
              = take k (cleanText ''<p>Hello   <b>big</b> world  </p> and more'') @ ''...'')
   \<and> truncateText ''Supercalifragilistic day'' 5
       = take 5 (cleanText ''Supercalifragilistic day'') @ ''...''
   \<and> truncateText ''A quiet hour'' 150 = cleanText ''A quiet hour''"
proof -
  define T where "T = ''<p>Hello   <b>big</b> world  </p> and more''"
  have c: "cleanText T = ''Hello big world and more''" unfolding T_def by code_simp
  have n: "T \<noteq> []" by (simp add: T_def)
  have l: "12 < length (cleanText T)" by (simp add: c)
  have s: "CHR '' '' \<in> set (take 12 (cleanText T))" by (simp add: c)
  from truncation_behaviour [of T 12] n l s
  have a: "\<exists>k. 0 < k \<and> k < 12 \<and> cleanText T ! k = CHR '' ''
      \<and> truncateText T 12 = take k (cleanText T) @ ''...''"
    by blast
  have c2: "cleanText ''Supercalifragilistic day'' = ''Supercalifragilistic day''"
    by code_simp
  have l2: "5 < length (cleanText ''Supercalifragilistic day'')" by (simp add: c2)
  have s2: "CHR '' '' \<notin> set (take 5 (cleanText ''Supercalifragilistic day''))"
    by (simp add: c2)
  from truncation_behaviour [of "''Supercalifragilistic day''" 5] l2 s2
  have b: "truncateText ''Supercalifragilistic day'' 5
       = take 5 (cleanText ''Supercalifragilistic day'') @ ''...''"
    by blast
  have c3: "cleanText ''A quiet hour'' = ''A quiet hour''" by code_simp
  have l3: "length (cleanText ''A quiet hour'') \<le> 150" by (simp add: c3)
  from truncation_behaviour [of "''A quiet hour''" 150] l3
  have d: "truncateText ''A quiet hour'' 150 = cleanText ''A quiet hour''" by blast
  from c a b d show ?thesis unfolding T_def by blast
qed

text \<open>
  C9 as worded fails: a description that is one long link is cut after 150 characters,
  inside the word, and a first paragraph of 182 characters is cut after 157, in the
  middle of \<open>difference\<close> (the text holds no entity, so decodeHtmlEntities leaves it
  as it is).
\<close>

theorem truncation_cuts_inside_a_word:
  "truncateText ''https://www.eventbrite.co.uk/e/an-evening-of-sound-and-stillness-with-gongs-singing-bowls-and-guided-breathwork-in-east-london-tickets-1234567890?aff=holistique'' 150
     = ''https://www.eventbrite.co.uk/e/an-evening-of-sound-and-stillness-with-gongs-singing-bowls-and-guided-breathwork-in-east-london-tickets-1234567890?aff=...''
   \<and> extractExcerpt (decodeHtmlEntities plain_env) ''<p>Breathing slowly through the nose calms the nervous system and steadies the mind, and a daily practice of only ten minutes is enough to notice a lasting difference in sleep and mood.</p>''
     = ''Breathing slowly through the nose calms the nervous system and steadies the mind, and a daily practice of only ten minutes is enough to notice a lasting diff...''"
  by code_simp

section \<open>Claims about the cap on past events\<close>

text \<open>
  C10. A run of sync-events keeps the first 12 past events the source returned, in the
  order returned (the request asks for ended events by start date, latest first), and
  nothing behind them. Every manifest a run writes holds at most 12
  past events, and the whole run (the pages it writes included) is the run on the first
  12 past events. In a run that got past the fetch of the upcoming events, the manifest
  written holds the data of exactly these first 12 (of all of them when fewer came), and
  the text put between the past markers of events.html is the cards of exactly these,
  one per event, joined by line feeds (the fallback paragraph when no past event came):
  events.html is written with that text spliced into the page as the upcoming splice
  left it, or, when the past markers are missing, with the result of the upcoming splice
  alone. A thirteenth past event reaches neither the manifest nor the past section.
\<close>

theorem past_events_capped:
  \<open>(\<forall>m \<in> set (manifestsWritten (fst (main_events R inp))). length (past m) \<le> 12)
   \<and> main_events R (inp\<lparr>pastFetch := Inr ps\<rparr>)
       = main_events R (inp\<lparr>pastFetch := Inr (take 12 ps)\<rparr>)
   \<and> (\<forall>ups. configured inp \<and> upcomingFetch inp = Inr ups
        \<longrightarrow> map past (manifestsWritten (fst (main_events R (inp\<lparr>pastFetch := Inr ps\<rparr>))))
              = [map (extractEventData R) (take 12 ps)]
          \<and> length (map (extractEventData R) (take 12 ps)) = min 12 (length ps)
          \<and> (\<forall>h cur w. eventsPage inp = Some h
                \<and> cur = (case replaceSection h ''<!-- EVENTS-UPCOMING-START -->''
                                 ''<!-- EVENTS-UPCOMING-END -->'' (upcomingContent R ups) of
                            Some u \<Rightarrow> u | None \<Rightarrow> h)
              \<longrightarrow> ((EVENTS_PAGE_PATH, w)
                      \<in> set (filesWritten (fst (main_events R (inp\<lparr>pastFetch := Inr ps\<rparr>))))
                    \<longleftrightarrow> (case replaceSection cur ''<!-- EVENTS-PAST-START -->''
                                 ''<!-- EVENTS-PAST-END -->''
                                 (if ps = []
                                  then ''                    <p class="events__empty reveal">No past events to show yet.</p>''
                                  else join [newline]
                                         (map (generateEventsPagePastCard R) (take 12 ps))) of
                           Some p \<Rightarrow> w = p
                         | None \<Rightarrow> replaceSection h ''<!-- EVENTS-UPCOMING-START -->''
                                      ''<!-- EVENTS-UPCOMING-END -->''
                                      (upcomingContent R ups) = Some w))))\<close>
proof (intro conjI allI impI)
  show "\<forall>m \<in> set (manifestsWritten (fst (main_events R inp))). length (past m) \<le> 12"
  proof (cases "configured inp \<and> (\<exists>ups. upcomingFetch inp = Inr ups)
                 \<and> (\<exists>fetched. pastFetch inp = Inr fetched)")
    case True
    then obtain ups fetched where "configured inp" "upcomingFetch inp = Inr ups"
      "pastFetch inp = Inr fetched" by blast
    then show ?thesis by (simp add: main_events_manifests)
  next
    case False
    then have "\<not> configured inp \<or> (\<exists>e. upcomingFetch inp = Inl e)
        \<or> (\<exists>e. pastFetch inp = Inl e)"
      by (metis sum.exhaust)
    then show ?thesis by (simp add: main_events_abort_manifests)
  qed
next
  show "main_events R (inp\<lparr>pastFetch := Inr ps\<rparr>)
       = main_events R (inp\<lparr>pastFetch := Inr (take 12 ps)\<rparr>)"
    by (cases "upcomingFetch inp"; cases "manifestFile inp")
       (simp_all add: main_events_def Let_def)
next
  fix ups
  assume a: "configured inp \<and> upcomingFetch inp = Inr ups"
  let ?inp = "inp\<lparr>pastFetch := Inr ps\<rparr>"
  have cfg: "configured ?inp" using a by simp
  have up: "upcomingFetch ?inp = Inr ups" using a by simp
  have pa: "pastFetch ?inp = Inr ps" by simp
  show "map past (manifestsWritten (fst (main_events R ?inp)))
      = [map (extractEventData R) (take 12 ps)]"
    by (simp add: main_events_manifests [OF cfg up pa])
  show "length (map (extractEventData R) (take 12 ps)) = min 12 (length ps)"
    by (simp add: min.commute)
  fix h cur w
  assume b: "eventsPage inp = Some h
      \<and> cur = (case replaceSection h ''<!-- EVENTS-UPCOMING-START -->''
                       ''<!-- EVENTS-UPCOMING-END -->'' (upcomingContent R ups) of
                  Some u \<Rightarrow> u | None \<Rightarrow> h)"
  have c: \<open>pastContent R (take 12 ps)
      = (if ps = []
         then ''                    <p class="events__empty reveal">No past events to show yet.</p>''
         else join [newline] (map (generateEventsPagePastCard R) (take 12 ps)))\<close>
    by (simp add: pastContent_def)
  have ep: "eventsPage ?inp = Some h" using b by simp
  show \<open>(EVENTS_PAGE_PATH, w) \<in> set (filesWritten (fst (main_events R ?inp)))
      \<longleftrightarrow> (case replaceSection cur ''<!-- EVENTS-PAST-START -->''
                   ''<!-- EVENTS-PAST-END -->''
                   (if ps = []
                    then ''                    <p class="events__empty reveal">No past events to show yet.</p>''
                    else join [newline]
                           (map (generateEventsPagePastCard R) (take 12 ps))) of
             Some p \<Rightarrow> w = p
           | None \<Rightarrow> replaceSection h ''<!-- EVENTS-UPCOMING-START -->''
                        ''<!-- EVENTS-UPCOMING-END -->''
                        (upcomingContent R ups) = Some w)\<close>
    unfolding main_events_events_written [OF cfg up pa] ep updateEventsPage_written
      c [symmetric]
    using b by simp
qed

theorem past_events_capped_witness:
  "length thirteen_past = 13
   \<and> map past (manifestsWritten (fst (main_events plain_renderers
       (first_run (Some past_only_page) None [] thirteen_past))))
     = [[''past 01'', ''past 02'', ''past 03'', ''past 04'', ''past 05'', ''past 06'',
         ''past 07'', ''past 08'', ''past 09'', ''past 10'', ''past 11'', ''past 12'']]
   \<and> (EVENTS_PAGE_PATH,
       ''<h2>Past</h2><!-- EVENTS-PAST-START -->'' @ [newline]
       @ ''past 01'' @ [newline] @ ''past 02'' @ [newline] @ ''past 03'' @ [newline]
       @ ''past 04'' @ [newline] @ ''past 05'' @ [newline] @ ''past 06'' @ [newline]
       @ ''past 07'' @ [newline] @ ''past 08'' @ [newline] @ ''past 09'' @ [newline]
       @ ''past 10'' @ [newline] @ ''past 11'' @ [newline] @ ''past 12'' @ [newline]
       @ ''<!-- EVENTS-PAST-END -->'')
     \<in> set (filesWritten (fst (main_events plain_renderers
         (first_run (Some past_only_page) None [] thirteen_past))))
   \<and> main_events plain_renderers (first_run (Some past_only_page) None [] thirteen_past)
     = main_events plain_renderers
         (first_run (Some past_only_page) None [] (butlast thirteen_past))"
proof -
  define inp where "inp = first_run (Some past_only_page) None [] thirteen_past"
  define R where "R = plain_renderers"
  define page where "page = ''<h2>Past</h2><!-- EVENTS-PAST-START -->'' @ [newline]
       @ ''past 01'' @ [newline] @ ''past 02'' @ [newline] @ ''past 03'' @ [newline]
       @ ''past 04'' @ [newline] @ ''past 05'' @ [newline] @ ''past 06'' @ [newline]
       @ ''past 07'' @ [newline] @ ''past 08'' @ [newline] @ ''past 09'' @ [newline]
       @ ''past 10'' @ [newline] @ ''past 11'' @ [newline] @ ''past 12'' @ [newline]
       @ ''<!-- EVENTS-PAST-END -->''"
  have len: "length thirteen_past = 13" by (simp add: thirteen_past_def)
  have ne: "thirteen_past \<noteq> []" by (simp add: thirteen_past_def)
  have cfg: "configured inp" by (simp add: inp_def first_run_def)
  have up: "upcomingFetch inp = Inr []" by (simp add: inp_def first_run_def)
  have ep: "eventsPage inp = Some past_only_page" by (simp add: inp_def first_run_def)
  have same: "inp\<lparr>pastFetch := Inr thirteen_past\<rparr> = inp"
    by (simp add: inp_def first_run_def)
  have cut: "inp\<lparr>pastFetch := Inr (take 12 thirteen_past)\<rparr>
      = first_run (Some past_only_page) None [] (butlast thirteen_past)"
    by (simp add: inp_def first_run_def thirteen_past_def)
  have first12: "map (extractEventData R) (take 12 thirteen_past)
      = [''past 01'', ''past 02'', ''past 03'', ''past 04'', ''past 05'', ''past 06'',
         ''past 07'', ''past 08'', ''past 09'', ''past 10'', ''past 11'', ''past 12'']"
    by (simp add: R_def plain_renderers_def thirteen_past_def)
  have cur: "(case replaceSection past_only_page ''<!-- EVENTS-UPCOMING-START -->''
                     ''<!-- EVENTS-UPCOMING-END -->'' (upcomingContent R []) of
                Some u \<Rightarrow> u | None \<Rightarrow> past_only_page) = past_only_page"
    unfolding R_def by code_simp
  have spl: "replaceSection past_only_page ''<!-- EVENTS-PAST-START -->''
      ''<!-- EVENTS-PAST-END -->''
      (join [newline] (map (generateEventsPagePastCard R) (take 12 thirteen_past)))
    = Some page"
    unfolding R_def page_def by code_simp
  note inst = past_events_capped [of R inp thirteen_past, unfolded same cut]
  from inst cfg up have m: "map past (manifestsWritten (fst (main_events R inp)))
      = [map (extractEventData R) (take 12 thirteen_past)]"
    by blast
  from inst cfg up ep have iff: \<open>(EVENTS_PAGE_PATH, page)
        \<in> set (filesWritten (fst (main_events R inp)))
      \<longleftrightarrow> (case replaceSection
                 (case replaceSection past_only_page ''<!-- EVENTS-UPCOMING-START -->''
                     ''<!-- EVENTS-UPCOMING-END -->'' (upcomingContent R []) of
                    Some u \<Rightarrow> u | None \<Rightarrow> past_only_page)
                 ''<!-- EVENTS-PAST-START -->'' ''<!-- EVENTS-PAST-END -->''
                 (if thirteen_past = []
                  then ''                    <p class="events__empty reveal">No past events to show yet.</p>''
                  else join [newline]
                         (map (generateEventsPagePastCard R) (take 12 thirteen_past))) of
             Some p \<Rightarrow> page = p
           | None \<Rightarrow> replaceSection past_only_page ''<!-- EVENTS-UPCOMING-START -->''
                        ''<!-- EVENTS-UPCOMING-END -->'' (upcomingContent R []) = Some page)\<close>
    by blast
  have w: "(EVENTS_PAGE_PATH, page) \<in> set (filesWritten (fst (main_events R inp)))"
    unfolding iff cur if_not_P [OF ne] spl by simp
  from inst have eq: "main_events R inp
      = main_events R (first_run (Some past_only_page) None [] (butlast thirteen_past))"
    by blast
  from len m w eq show ?thesis
    unfolding first12 unfolding inp_def R_def page_def by blast
qed
end
